theory Spec2Isabelle
  imports Main "HOL-Library.Sublist"
begin

section \<open>Decoded documents and Python's operations on them\<close>

text \<open>
  \<^verbatim>\<open>xmltodict.parse\<close> followed by the JSON round trip yields nested values built from
  \<^verbatim>\<open>None\<close>, strings, lists and dictionaries. A dictionary is an association list
  (insertion order, first binding of a key wins on lookup).
\<close>

datatype json = JNull | JStr string | JList "json list" | JDict "(string \<times> json) list"

text \<open>
  Exceptions are values. The first fourteen classes are the ones \<^verbatim>\<open>streams.py\<close> imports
  from \<^verbatim>\<open>tap_intacct.exceptions\<close>; the others are Python's built-in classes that the
  code raises itself or that the interpreter raises while a structure is walked.
  An f-string is kept as its sequence of literal and interpolated fragments.
\<close>

datatype exc_class =
    BadGatewayError | OfflineServiceError | RateLimitError | InvalidXmlResponse
  | WrongParamsError | InvalidTokenError | AuthFailure | InvalidRequest
  | NoPrivilegeError | NotFoundItemError | ExpiredTokenError | InternalServerError
  | PleaseTryAgainLaterError | SageIntacctSDKError
  | KeyError | TypeError | AttributeError | UnboundLocalError | ValueError | Exception

datatype frag = Lit string | FInt int | FStr string | FObj json

datatype exc_arg = AStr "frag list" | AObj json

datatype exn = Exn exc_class "exc_arg list"

fun exn_class :: "exn \<Rightarrow> exc_class" where
  "exn_class (Exn c args) = c"

fun exn_args :: "exn \<Rightarrow> exc_arg list" where
  "exn_args (Exn c args) = args"

text \<open>The classes of \<^verbatim>\<open>tap_intacct.exceptions\<close> used by the response parser.\<close>

fun classified :: "exc_class \<Rightarrow> bool" where
  "classified KeyError = False"
| "classified TypeError = False"
| "classified AttributeError = False"
| "classified UnboundLocalError = False"
| "classified ValueError = False"
| "classified Exception = False"
| "classified _ = True"

definition and_then :: "exn + 'a \<Rightarrow> ('a \<Rightarrow> exn + 'b) \<Rightarrow> exn + 'b" where
  "and_then m f = (case m of Inl e \<Rightarrow> Inl e | Inr v \<Rightarrow> f v)"

text \<open>\<^verbatim>\<open>x[k]\<close> with a string key: only a dictionary can be subscripted by a string.\<close>

fun subscr :: "json \<Rightarrow> string \<Rightarrow> exn + json" where
  "subscr (JDict d) k =
     (case map_of d k of Some v \<Rightarrow> Inr v | None \<Rightarrow> Inl (Exn KeyError [AObj (JStr k)]))"
| "subscr JNull k = Inl (Exn TypeError [])"
| "subscr (JStr s) k = Inl (Exn TypeError [])"
| "subscr (JList xs) k = Inl (Exn TypeError [])"

text \<open>\<^verbatim>\<open>x.get(k, default)\<close>: only a dictionary has the method.\<close>

fun py_get :: "json \<Rightarrow> string \<Rightarrow> json \<Rightarrow> exn + json" where
  "py_get (JDict d) k dflt = Inr (case map_of d k of Some v \<Rightarrow> v | None \<Rightarrow> dflt)"
| "py_get JNull k dflt = Inl (Exn AttributeError [])"
| "py_get (JStr s) k dflt = Inl (Exn AttributeError [])"
| "py_get (JList xs) k dflt = Inl (Exn AttributeError [])"

text \<open>Truth value of an object, and \<^verbatim>\<open>needle in x\<close> for a string needle.\<close>

fun truthy :: "json \<Rightarrow> bool" where
  "truthy JNull = False"
| "truthy (JStr s) = (s \<noteq> [])"
| "truthy (JList xs) = (xs \<noteq> [])"
| "truthy (JDict d) = (d \<noteq> [])"

fun py_in :: "string \<Rightarrow> json \<Rightarrow> exn + bool" where
  "py_in needle (JStr s) = Inr (sublist needle s)"
| "py_in needle (JList xs) = Inr (JStr needle \<in> set xs)"
| "py_in needle (JDict d) = Inr (needle \<in> fst ` set d)"
| "py_in needle JNull = Inl (Exn TypeError [])"

section \<open>The response parser\<close>

record response =
  status_code :: int
  resp_text :: string

datatype level = ERROR

type_synonym log_entry = "level \<times> frag list"

text \<open>Lines 225--239: the handler of a failed decode.\<close>

definition decode_failure :: "response \<Rightarrow> exn" where
  "decode_failure resp =
     (let m = [AStr [Lit ''Response status code: '', FInt (status_code resp),
                     Lit '', response: '', FStr (resp_text resp)]]
      in if status_code resp = 502 then Exn BadGatewayError m
         else if status_code resp = 503 then Exn OfflineServiceError m
         else if status_code resp = 429 then Exn RateLimitError m
         else Exn InvalidXmlResponse m)"

text \<open>\<^verbatim>\<open>parsed_response["response"]["control"]["status"]\<close> (lines 242 and 245).\<close>

definition control_status :: "json \<Rightarrow> exn + json" where
  "control_status parsed =
     and_then (subscr parsed ''response'') (\<lambda>r.
     and_then (subscr r ''control'') (\<lambda>c.
     subscr c ''status''))"

text \<open>Lines 242--243: \<^verbatim>\<open>api_response\<close> is bound only when the control status is
  \<^verbatim>\<open>"success"\<close>; \<open>None\<close> is the unbound local.\<close>

definition bind_api_response :: "json \<Rightarrow> exn + json option" where
  "bind_api_response parsed =
     and_then (control_status parsed) (\<lambda>s.
       if s = JStr ''success''
       then and_then (subscr parsed ''response'') (\<lambda>r.
            and_then (subscr r ''operation'') (\<lambda>op. Inr (Some op)))
       else Inr None)"

text \<open>Lines 245--251. \<open>decode_support_id\<close> is the session client's decoder, a parameter.\<close>

definition check_control_failure :: "(json \<Rightarrow> exn + json) \<Rightarrow> json \<Rightarrow> exn + unit" where
  "check_control_failure decode_support_id parsed =
     and_then (control_status parsed) (\<lambda>s.
       if s = JStr ''failure''
       then and_then (subscr parsed ''response'') (\<lambda>r.
            and_then (subscr r ''errormessage'') (\<lambda>em.
            and_then (decode_support_id em) (\<lambda>exception_msg.
              Inl (Exn WrongParamsError
                     [AStr [Lit ''Some of the parameters are wrong''], AObj exception_msg]))))
       else Inr ())"

text \<open>Lines 253--257.\<close>

definition check_authentication :: "json option \<Rightarrow> exn + json" where
  "check_authentication api =
     (case api of
        None \<Rightarrow> Inl (Exn UnboundLocalError [])
      | Some api_response \<Rightarrow>
          and_then (subscr api_response ''authentication'') (\<lambda>a.
          and_then (subscr a ''status'') (\<lambda>s.
            if s = JStr ''failure''
            then and_then (subscr api_response ''errormessage'') (\<lambda>em.
                   Inl (Exn InvalidTokenError
                          [AStr [Lit ''Invalid token / Incorrect credentials''], AObj em]))
            else Inr api_response)))"

text \<open>Lines 259--260: \<open>Some v\<close> is \<^verbatim>\<open>return v\<close>, \<open>None\<close> falls through.\<close>

definition result_data :: "string \<Rightarrow> json \<Rightarrow> exn + json option" where
  "result_data intacct_obj_name api_response =
     and_then (subscr api_response ''result'') (\<lambda>r.
     and_then (subscr r ''status'') (\<lambda>s.
       if s = JStr ''success''
       then and_then (subscr r ''data'') (\<lambda>d.
            and_then (subscr d intacct_obj_name) (\<lambda>v. Inr (Some v)))
       else Inr None))"

text \<open>Lines 263--272: the value of the local \<^verbatim>\<open>desc_2\<close>.\<close>

definition desc_2 :: "json \<Rightarrow> exn + json" where
  "desc_2 api_response =
     and_then (py_get api_response ''result'' (JDict [])) (\<lambda>r.
     and_then (py_get r ''errormessage'' (JDict [])) (\<lambda>em.
     and_then (py_get em ''error'' (JDict [])) (\<lambda>error.
       case error of
         JDict d \<Rightarrow> py_get error ''description2'' JNull
       | JList (e # es) \<Rightarrow> py_get e ''description2'' JNull
       | _ \<Rightarrow> Inr (JStr ''''))))"

text \<open>Lines 241--283, the block under \<^verbatim>\<open>status_code == 200\<close>: the log written, and
  an exception, a returned value (\<open>Some\<close>) or the fall through to line 285 (\<open>None\<close>).\<close>

definition status_200 ::
  "string \<Rightarrow> (json \<Rightarrow> exn + json) \<Rightarrow> json \<Rightarrow> log_entry list \<times> (exn + json option)" where
  "status_200 intacct_obj_name decode_support_id parsed =
     (case and_then (bind_api_response parsed) (\<lambda>api.
           and_then (check_control_failure decode_support_id parsed) (\<lambda>u.
           and_then (check_authentication api) (\<lambda>api_response.
           and_then (result_data intacct_obj_name api_response) (\<lambda>ret.
             Inr (api_response, ret))))) of
        Inl e \<Rightarrow> ([], Inl e)
      | Inr (api_response, Some v) \<Rightarrow> ([], Inr (Some v))
      | Inr (api_response, None) \<Rightarrow>
          ([(ERROR, [Lit ''Intacct error response: '', FObj api_response])],
           and_then (desc_2 api_response) (\<lambda>d. Inr None)))"

text \<open>Lines 285--288: \<^verbatim>\<open>exception_msg\<close> and \<^verbatim>\<open>correction\<close>.\<close>

definition outer_error :: "json \<Rightarrow> exn + json \<times> json" where
  "outer_error parsed =
     and_then (py_get parsed ''response'' (JDict [])) (\<lambda>r.
     and_then (py_get r ''errormessage'' (JDict [])) (\<lambda>em.
     and_then (py_get em ''error'' (JDict [])) (\<lambda>exception_msg.
     and_then (py_get exception_msg ''correction'' (JDict [])) (\<lambda>correction.
       Inr (exception_msg, correction)))))"

text \<open>Lines 290--325: the classification by status code; every path raises.\<close>

definition classify :: "int \<Rightarrow> json \<Rightarrow> json \<Rightarrow> json \<Rightarrow> exn" where
  "classify code parsed exception_msg correction =
     (if code = 400 then
        (case py_get exception_msg ''errorno'' JNull of
           Inl e \<Rightarrow> e
         | Inr errorno \<Rightarrow>
             if errorno = JStr ''GW-0011''
             then Exn AuthFailure
                    [AStr [Lit ''One or more authentication values are incorrect. Response:'',
                           FObj parsed]]
             else Exn InvalidRequest [AStr [Lit ''Invalid request''], AObj parsed])
      else if code = 401 then
        Exn InvalidTokenError
          [AStr [Lit ''Invalid token / Incorrect credentials. Response: '', FObj parsed]]
      else if code = 403 then
        Exn NoPrivilegeError
          [AStr [Lit ''Forbidden, the user has insufficient privilege. Response: '', FObj parsed]]
      else if code = 404 then
        Exn NotFoundItemError [AStr [Lit ''Not found item with ID. Response: '', FObj parsed]]
      else if code = 498 then
        Exn ExpiredTokenError
          [AStr [Lit ''Expired token, try to refresh it. Response: '', FObj parsed]]
      else if code = 500 then
        Exn InternalServerError [AStr [Lit ''Internal server error. Response: '', FObj parsed]]
      else if truthy correction then
        (case py_in ''Please Try Again Later'' correction of
           Inl e \<Rightarrow> e
         | Inr found \<Rightarrow>
             if found then Exn PleaseTryAgainLaterError [AObj parsed]
             else Exn SageIntacctSDKError [AStr [Lit ''Error: '', FObj parsed]])
      else Exn SageIntacctSDKError [AStr [Lit ''Error: '', FObj parsed]])"

definition raise_for_status :: "int \<Rightarrow> json \<Rightarrow> exn" where
  "raise_for_status code parsed =
     (case outer_error parsed of
        Inl e \<Rightarrow> e
      | Inr (exception_msg, correction) \<Rightarrow> classify code parsed exception_msg correction)"

text \<open>
  \<^verbatim>\<open>parse_response\<close> (lines 212--325). \<open>xml_parse\<close> stands for lines 222--223, the
  library's decoder followed by the JSON round trip, with \<open>None\<close> when either raises.
  The result is the log written and the exception raised or the value returned.
\<close>

definition parse_response ::
  "string \<Rightarrow> (string \<Rightarrow> json option) \<Rightarrow> (json \<Rightarrow> exn + json) \<Rightarrow> response
     \<Rightarrow> log_entry list \<times> (exn + json)" where
  "parse_response intacct_obj_name xml_parse decode_support_id resp =
     (case xml_parse (resp_text resp) of
        None \<Rightarrow> ([], Inl (decode_failure resp))
      | Some parsed \<Rightarrow>
          if status_code resp = 200 then
            (case status_200 intacct_obj_name decode_support_id parsed of
               (lg, Inl e) \<Rightarrow> (lg, Inl e)
             | (lg, Inr (Some v)) \<Rightarrow> (lg, Inr v)
             | (lg, Inr None) \<Rightarrow> (lg, Inl (raise_for_status 200 parsed)))
          else ([], Inl (raise_for_status (status_code resp) parsed)))"

section \<open>Envelope shapes used to state the properties\<close>

text \<open>The value found by walking a path of keys through nested dictionaries.\<close>

fun lookup_path :: "json \<Rightarrow> string list \<Rightarrow> json option" where
  "lookup_path v [] = Some v"
| "lookup_path (JDict d) (k # ks) =
     (case map_of d k of None \<Rightarrow> None | Some w \<Rightarrow> lookup_path w ks)"
| "lookup_path JNull (k # ks) = None"
| "lookup_path (JStr s) (k # ks) = None"
| "lookup_path (JList xs) (k # ks) = None"

fun returns :: "exn + 'a \<Rightarrow> bool" where
  "returns (Inr v) = True"
| "returns (Inl e) = False"

text \<open>
  A chain of \<^verbatim>\<open>.get(key, {})\<close> calls raises nothing when every value it is called on
  is a mapping; an absent entry yields the default, which is a mapping. \<open>get_walk v keys\<close>
  says so for the chain over \<open>keys\<close> that starts at \<open>v\<close> (the value of the last key is
  not called on).
\<close>

fun get_walk :: "json \<Rightarrow> string list \<Rightarrow> bool" where
  "get_walk v [] = True"
| "get_walk (JDict d) (k # ks) = (case map_of d k of None \<Rightarrow> True | Some w \<Rightarrow> get_walk w ks)"
| "get_walk JNull (k # ks) = False"
| "get_walk (JStr s) (k # ks) = False"
| "get_walk (JList xs) (k # ks) = False"

fun is_mapping :: "json \<Rightarrow> bool" where
  "is_mapping (JDict d) = True"
| "is_mapping JNull = False"
| "is_mapping (JStr s) = False"
| "is_mapping (JList xs) = False"

text \<open>The error entry of a failed result, when it is a non-empty list, starts with a
  mapping (line 269 calls \<^verbatim>\<open>.get\<close> on its first element).\<close>

definition error_entry_ok :: "json \<Rightarrow> bool" where
  "error_entry_ok op =
     (case lookup_path op [''result'', ''errormessage'', ''error''] of
        Some (JList (e # es)) \<Rightarrow> is_mapping e
      | _ \<Rightarrow> True)"

text \<open>
  A decoded HTTP 200 body has the envelope of the vendor protocol when every entry the
  parser reads on its way is there and has the shape the parser takes for granted: the
  control status is \<^verbatim>\<open>"success"\<close> or \<^verbatim>\<open>"failure"\<close>; a control failure comes with an
  error message that the session client decodes; a success comes with an operation that
  has an authentication status, an error message when that status is \<^verbatim>\<open>"failure"\<close>,
  otherwise a result status, and then the data entry of the object when that status is
  \<^verbatim>\<open>"success"\<close>; otherwise the chains \<^verbatim>\<open>result\<close>, \<^verbatim>\<open>errormessage\<close>, \<^verbatim>\<open>error\<close> of
  the operation (lines 263--265) and \<^verbatim>\<open>response\<close>, \<^verbatim>\<open>errormessage\<close>, \<^verbatim>\<open>error\<close>,
  \<^verbatim>\<open>correction\<close> of the body (lines 285--288) are called on mappings only, and a
  list-valued error entry of the result starts with a mapping.
\<close>

definition envelope_ok :: "string \<Rightarrow> (json \<Rightarrow> exn + json) \<Rightarrow> json \<Rightarrow> bool" where
  "envelope_ok obj dec parsed =
     (case lookup_path parsed [''response'', ''control'', ''status''] of
        None \<Rightarrow> False
      | Some s \<Rightarrow>
          if s = JStr ''failure'' then
            (case lookup_path parsed [''response'', ''errormessage''] of
               None \<Rightarrow> False
             | Some em \<Rightarrow> returns (dec em))
          else if s = JStr ''success'' then
            (case lookup_path parsed [''response'', ''operation''] of
               None \<Rightarrow> False
             | Some op \<Rightarrow>
                 (case lookup_path op [''authentication'', ''status''] of
                    None \<Rightarrow> False
                  | Some a \<Rightarrow>
                      if a = JStr ''failure'' then lookup_path op [''errormessage''] \<noteq> None
                      else
                        (case lookup_path op [''result'', ''status''] of
                           None \<Rightarrow> False
                         | Some rs \<Rightarrow>
                             if rs = JStr ''success''
                             then lookup_path op [''result'', ''data'', obj] \<noteq> None
                             else get_walk op [''result'', ''errormessage'', ''error'']
                                \<and> error_entry_ok op
                                \<and> get_walk parsed
                                      [''response'', ''errormessage'', ''error'', ''correction''])))
          else False)"

text \<open>
  The responses that take the branch of line 262: HTTP 200, a decoded body, control status
  \<^verbatim>\<open>"success"\<close>, an authentication status other than \<^verbatim>\<open>"failure"\<close> and a result status
  other than \<^verbatim>\<open>"success"\<close>. The value is the decoded body and its operation entry.
\<close>

definition failure_branch ::
  "(string \<Rightarrow> json option) \<Rightarrow> response \<Rightarrow> (json \<times> json) option" where
  "failure_branch xml_parse resp =
     (if status_code resp \<noteq> 200 then None
      else case xml_parse (resp_text resp) of
        None \<Rightarrow> None
      | Some parsed \<Rightarrow>
          if lookup_path parsed [''response'', ''control'', ''status''] \<noteq> Some (JStr ''success'')
          then None
          else case lookup_path parsed [''response'', ''operation''] of
            None \<Rightarrow> None
          | Some op \<Rightarrow>
              (case lookup_path op [''authentication'', ''status''] of
                 None \<Rightarrow> None
               | Some a \<Rightarrow>
                   if a = JStr ''failure'' then None
                   else case lookup_path op [''result'', ''status''] of
                     None \<Rightarrow> None
                   | Some rs \<Rightarrow> if rs = JStr ''success'' then None else Some (parsed, op)))"

text \<open>Sample documents: a success envelope around a result entry, and a body that holds
  only an outer error.\<close>

definition envelope :: "json \<Rightarrow> json" where
  "envelope result =
     JDict [(''response'',
       JDict [(''control'', JDict [(''status'', JStr ''success'')]),
              (''operation'',
                JDict [(''authentication'', JDict [(''status'', JStr ''success'')]),
                       (''result'', result)])])]"

definition error_document :: "json \<Rightarrow> json" where
  "error_document error =
     JDict [(''response'', JDict [(''errormessage'', JDict [(''error'', error)])])]"

section \<open>Dates: \<^verbatim>\<open>strftime\<close>, \<^verbatim>\<open>strptime\<close> and the date normalizer\<close>

text \<open>
  A \<^verbatim>\<open>datetime\<close> as its calendar fields and its time zone: \<open>tzinfo\<close> is \<open>None\<close> for a
  naive value and the offset from UTC in minutes for an aware one. Python's constructor
  accepts exactly the field values of \<open>valid_datetime\<close>.
\<close>

record datetime =
  year :: nat
  month :: nat
  day :: nat
  hour :: nat
  minute :: nat
  second :: nat
  microsecond :: nat
  tzinfo :: "int option"

definition is_leap :: "nat \<Rightarrow> bool" where
  "is_leap y = (y mod 4 = 0 \<and> (y mod 100 \<noteq> 0 \<or> y mod 400 = 0))"

definition days_in_month :: "nat \<Rightarrow> nat \<Rightarrow> nat" where
  "days_in_month y m =
     (if m = 2 then (if is_leap y then 29 else 28)
      else if m = 4 \<or> m = 6 \<or> m = 9 \<or> m = 11 then 30 else 31)"

definition valid_datetime :: "datetime \<Rightarrow> bool" where
  "valid_datetime dt =
     (1 \<le> year dt \<and> year dt \<le> 9999 \<and> 1 \<le> month dt \<and> month dt \<le> 12 \<and>
      1 \<le> day dt \<and> day dt \<le> days_in_month (year dt) (month dt) \<and>
      hour dt < 24 \<and> minute dt < 60 \<and> second dt < 60 \<and> microsecond dt < 1000000 \<and>
      (case tzinfo dt of None \<Rightarrow> True | Some off \<Rightarrow> - 1440 < off \<and> off < 1440))"

text \<open>Decimal digits; the zero-padded two digits of \<^verbatim>\<open>%m %d %H %M %S\<close>; four zero-padded
  digits; and a number in decimal without padding, which is what the C library writes for
  \<^verbatim>\<open>%Y\<close> (a year below 1000 comes out with fewer than four digits).\<close>

definition digit_char :: "nat \<Rightarrow> char" where
  "digit_char k = char_of (48 + k)"

definition pad2 :: "nat \<Rightarrow> string" where
  "pad2 n = [digit_char (n div 10 mod 10), digit_char (n mod 10)]"

definition pad4 :: "nat \<Rightarrow> string" where
  "pad4 n = pad2 (n div 100) @ pad2 (n mod 100)"

function decimal :: "nat \<Rightarrow> string" where
  "decimal n = (if n < 10 then [digit_char n] else decimal (n div 10) @ [digit_char (n mod 10)])"
  by pat_completeness auto
termination
  by (relation "measure (\<lambda>n. n)") auto

declare decimal.simps [simp del]

text \<open>Line 107: \<^verbatim>\<open>datetime.strftime("%m/%d/%Y %H:%M:%S")\<close>. The time zone is not
  written.\<close>

definition format_date_for_intacct :: "datetime \<Rightarrow> string" where
  "format_date_for_intacct dt =
     pad2 (month dt) @ ''/'' @ pad2 (day dt) @ ''/'' @ decimal (year dt) @ '' '' @
     pad2 (hour dt) @ '':'' @ pad2 (minute dt) @ '':'' @ pad2 (second dt)"

text \<open>
  \<^verbatim>\<open>strptime\<close> compiles the format to a regular expression, matches it at the start of
  the string with backtracking, and refuses a match that leaves text over. An atom is a
  range of character codes; a directive is a list of alternatives tried in order, each a
  sequence of atoms; a blank in the format is \<^verbatim>\<open>\s+\<close>.
\<close>

type_synonym atom = "nat \<times> nat"

datatype item = Grp "atom list list" | Chr char | Ws

fun match_atoms :: "atom list \<Rightarrow> string \<Rightarrow> (string \<times> string) option" where
  "match_atoms [] s = Some ([], s)"
| "match_atoms (a # as) [] = None"
| "match_atoms (a # as) (c # s) =
     (if fst a \<le> of_char c \<and> of_char c \<le> snd a
      then (case match_atoms as s of None \<Rightarrow> None | Some (t, r) \<Rightarrow> Some (c # t, r))
      else None)"

definition is_space :: "char \<Rightarrow> bool" where
  "is_space c = (let n = (of_char c :: nat) in
     (9 \<le> n \<and> n \<le> 13) \<or> (28 \<le> n \<and> n \<le> 32) \<or> n = 133 \<or> n = 160)"

text \<open>The ways one item matches a prefix, in the order the matcher tries them: the text a
  group captured (if the item is a group) and the rest of the string.\<close>

fun item_matches :: "item \<Rightarrow> string \<Rightarrow> (string option \<times> string) list" where
  "item_matches (Grp alts) s =
     List.map_filter (\<lambda>alt. case match_atoms alt s of
                               None \<Rightarrow> None | Some (t, r) \<Rightarrow> Some (Some t, r)) alts"
| "item_matches (Chr c) s = (case s of [] \<Rightarrow> [] | c' # r \<Rightarrow> if c' = c then [(None, r)] else [])"
| "item_matches Ws s =
     map (\<lambda>j. (None, drop j s)) (rev [1..<Suc (length (takeWhile is_space s))])"

fun all_matches :: "item list \<Rightarrow> string \<Rightarrow> (string list \<times> string) list" where
  "all_matches [] s = [([], s)]"
| "all_matches (it # its) s =
     concat (map (\<lambda>(g, r). map (\<lambda>(gs, r'). ((case g of None \<Rightarrow> gs | Some t \<Rightarrow> t # gs), r'))
                                (all_matches its r))
                 (item_matches it s))"

text \<open>The directives, as \<^verbatim>\<open>_strptime.py\<close> writes them.\<close>

definition dir_m :: item where  \<comment> \<open>\<^verbatim>\<open>1[0-2]|0[1-9]|[1-9]\<close>\<close>
  "dir_m = Grp [[(49, 49), (48, 50)], [(48, 48), (49, 57)], [(49, 57)]]"

definition dir_d :: item where  \<comment> \<open>\<^verbatim>\<open>3[0-1]|[1-2]\d|0[1-9]|[1-9]| [1-9]\<close>\<close>
  "dir_d = Grp [[(51, 51), (48, 49)], [(49, 50), (48, 57)], [(48, 48), (49, 57)], [(49, 57)],
                [(32, 32), (49, 57)]]"

definition dir_Y :: item where  \<comment> \<open>\<^verbatim>\<open>\d\d\d\d\<close>\<close>
  "dir_Y = Grp [[(48, 57), (48, 57), (48, 57), (48, 57)]]"

definition dir_H :: item where  \<comment> \<open>\<^verbatim>\<open>2[0-3]|[0-1]\d|\d\<close>\<close>
  "dir_H = Grp [[(50, 50), (48, 51)], [(48, 49), (48, 57)], [(48, 57)]]"

definition dir_M :: item where  \<comment> \<open>\<^verbatim>\<open>[0-5]\d|\d\<close>\<close>
  "dir_M = Grp [[(48, 53), (48, 57)], [(48, 57)]]"

definition dir_S :: item where  \<comment> \<open>\<^verbatim>\<open>6[0-1]|[0-5]\d|\d\<close>\<close>
  "dir_S = Grp [[(54, 54), (48, 49)], [(48, 53), (48, 57)], [(48, 57)]]"

definition format_full :: "item list" where  \<comment> \<open>\<^verbatim>\<open>"%m/%d/%Y %H:%M:%S"\<close>\<close>
  "format_full = [dir_m, Chr CHR ''/'', dir_d, Chr CHR ''/'', dir_Y, Ws,
                  dir_H, Chr CHR '':'', dir_M, Chr CHR '':'', dir_S]"

definition format_date :: "item list" where  \<comment> \<open>\<^verbatim>\<open>"%m/%d/%Y"\<close>\<close>
  "format_date = [dir_m, Chr CHR ''/'', dir_d, Chr CHR ''/'', dir_Y]"

text \<open>\<^verbatim>\<open>int\<close> of a captured text: decimal digits, after a blank that \<^verbatim>\<open>int\<close> strips.\<close>

definition int_of :: "string \<Rightarrow> nat" where
  "int_of t = foldl (\<lambda>n c. if 48 \<le> (of_char c :: nat) \<and> (of_char c :: nat) \<le> 57
                           then 10 * n + (of_char c - 48) else n) 0 t"

text \<open>The constructor call at the end of \<^verbatim>\<open>strptime\<close>: a date that does not exist and
  a second of 60 or 61 raise \<open>ValueError\<close>.\<close>

definition make_datetime :: "nat \<Rightarrow> nat \<Rightarrow> nat \<Rightarrow> nat \<Rightarrow> nat \<Rightarrow> nat \<Rightarrow> exn + datetime" where
  "make_datetime y mo d h mi s =
     (let dt = \<lparr>year = y, month = mo, day = d, hour = h, minute = mi, second = s,
                microsecond = 0, tzinfo = None\<rparr>
      in if valid_datetime dt then Inr dt else Inl (Exn ValueError []))"

text \<open>\<^verbatim>\<open>datetime.strptime(s, format)\<close> for the two formats; fields a format lacks are 0,
  and the value is naive.\<close>

definition strptime :: "string \<Rightarrow> item list \<Rightarrow> exn + datetime" where
  "strptime s fmt =
     (case all_matches fmt s of
        [] \<Rightarrow> Inl (Exn ValueError [])
      | (gs, rest) # others \<Rightarrow>
          if rest \<noteq> [] then Inl (Exn ValueError [])
          else (case map int_of gs of
                  [mo, d, y, h, mi, sec] \<Rightarrow> make_datetime y mo d h mi sec
                | [mo, d, y] \<Rightarrow> make_datetime y mo d 0 0 0
                | _ \<Rightarrow> Inl (Exn ValueError [])))"

text \<open>Lines 327--340.\<close>

definition parse_to_datetime :: "string \<Rightarrow> exn + datetime" where
  "parse_to_datetime date_str =
     (case strptime date_str format_full of
        Inr dt \<Rightarrow> Inr dt
      | Inl e \<Rightarrow>
          if exn_class e = ValueError then
            (case strptime date_str format_date of
               Inr dt \<Rightarrow> Inr dt
             | Inl err \<Rightarrow>
                 if exn_class err = ValueError
                 then Inl (Exn ValueError [AStr [Lit ''Invalid date format: '', FStr date_str]])
                 else Inl err)
          else Inl e)"

section \<open>The record normalizer\<close>

text \<open>A value of a record: what the decoder produced, or a timestamp after normalization.
  A record is a dictionary from field names to values.\<close>

datatype pyval = J json | DT datetime

type_synonym row = "string \<rightharpoonup> pyval"

text \<open>Lines 58--62: the schema properties whose \<^verbatim>\<open>format\<close> is \<^verbatim>\<open>"date-time"\<close>, in
  the order of the schema.\<close>

fun datetime_fields :: "(string \<times> json) list \<Rightarrow> exn + string list" where
  "datetime_fields [] = Inr []"
| "datetime_fields ((i, t) # props) =
     (case py_get t ''format'' JNull of
        Inl e \<Rightarrow> Inl e
      | Inr f \<Rightarrow>
          (case datetime_fields props of
             Inl e \<Rightarrow> Inl e
           | Inr fs \<Rightarrow> Inr (if f = JStr ''date-time'' then i # fs else fs)))"

text \<open>\<^verbatim>\<open>self._parse_to_datetime(row[field])\<close> on a value that is not \<^verbatim>\<open>None\<close>:
  \<^verbatim>\<open>strptime\<close> refuses an argument that is not a string with \<open>TypeError\<close>, which the
  handlers for \<open>ValueError\<close> let through.\<close>

fun parse_value :: "pyval \<Rightarrow> exn + datetime" where
  "parse_value (J (JStr s)) = parse_to_datetime s"
| "parse_value (J JNull) = Inl (Exn TypeError [])"
| "parse_value (J (JList xs)) = Inl (Exn TypeError [])"
| "parse_value (J (JDict d)) = Inl (Exn TypeError [])"
| "parse_value (DT dt) = Inl (Exn TypeError [])"

text \<open>Lines 356--359. The record is updated in place: the result is the record as the
  call leaves it and the exception raised, if any; without one the record is returned.\<close>

fun post_process :: "string list \<Rightarrow> row \<Rightarrow> row \<times> exn option" where
  "post_process [] row = (row, None)"
| "post_process (field # dfields) row =
     (case row field of
        None \<Rightarrow> (row, Some (Exn KeyError [AObj (JStr field)]))
      | Some v \<Rightarrow>
          if v = J JNull then post_process dfields row
          else (case parse_value v of
                  Inl e \<Rightarrow> (row, Some e)
                | Inr dt \<Rightarrow> post_process dfields (row(field \<mapsto> DT dt))))"

section \<open>The request builder\<close>

text \<open>The dictionary handed to \<^verbatim>\<open>xmltodict.unparse\<close>: strings, booleans, integers, the
  float \<^verbatim>\<open>3.0\<close> (as a fraction), a timestamp, lists and dictionaries.\<close>

datatype body = BNone | BStr string | BBool bool | BInt int | BFloat int int | BTime datetime
  | BList "body list" | BDict "(string \<times> body) list"

record stream =
  name :: string
  intacct_obj_name :: "string option"
  schema_properties :: "(string \<times> json) list"
  config :: "string \<rightharpoonup> string"
  session_id :: string

text \<open>
  \<^verbatim>\<open>prepare_request_payload\<close> (lines 144--210). Its inputs beyond the stream are made
  explicit: \<open>unparse\<close> is the library's serializer, \<open>REP_KEYS\<close> and \<open>GET_BY_DATE_FIELD\<close> are
  the constants of \<^verbatim>\<open>tap_intacct.const\<close>, \<open>starting_timestamp\<close> is what
  \<^verbatim>\<open>get_starting_timestamp\<close> returns (\<open>None\<close> when there is no bookmark), \<open>now\<close> is the
  reading of \<^verbatim>\<open>datetime.now(timezone.utc)\<close> and \<open>uuid4\<close> the text of \<^verbatim>\<open>uuid.uuid4()\<close>.
\<close>

definition prepare_request_payload ::
  "(body \<Rightarrow> 'x) \<Rightarrow> (string \<rightharpoonup> string) \<Rightarrow> string \<Rightarrow> stream \<Rightarrow> datetime option \<Rightarrow> datetime
     \<Rightarrow> string \<Rightarrow> exn + 'x" where
  "prepare_request_payload unparse REP_KEYS GET_BY_DATE_FIELD s starting_timestamp now uuid4 =
     (if name s = ''audit_history''
      then Inl (Exn Exception [AStr [Lit ''TODO hanlde audit streams'']])
      else
        let rep_key = (case REP_KEYS (name s) of Some k \<Rightarrow> k | None \<Rightarrow> GET_BY_DATE_FIELD)
        in case starting_timestamp of
             None \<Rightarrow> Inl (Exn AttributeError [])
           | Some ts \<Rightarrow>
               let query_filter =
                     BDict [(''greaterthanorequalto'',
                             BDict [(''field'', BStr rep_key),
                                    (''value'', BStr (format_date_for_intacct ts))])];
                   orderby =
                     BDict [(''order'', BDict [(''field'', BStr rep_key), (''ascending'', BDict [])])];
                   query =
                     BDict [(''object'',
                               (case intacct_obj_name s of None \<Rightarrow> BNone | Some n \<Rightarrow> BStr n)),
                            (''select'',
                               BDict [(''field'', BList (map (\<lambda>p. BStr (fst p)) (schema_properties s)))]),
                            (''options'', BDict [(''showprivate'', BStr ''true'')]),
                            (''filter'', query_filter),
                            (''pagesize'', BInt 1000),
                            (''offset'', BInt 0),
                            (''orderby'', orderby)]
               in case config s ''sender_id'' of
                    None \<Rightarrow> Inl (Exn KeyError [AObj (JStr ''sender_id'')])
                  | Some sender_id \<Rightarrow>
                      (case config s ''sender_password'' of
                         None \<Rightarrow> Inl (Exn KeyError [AObj (JStr ''sender_password'')])
                       | Some sender_password \<Rightarrow>
                           Inr (unparse
                             (BDict [(''request'',
                                BDict [(''control'',
                                         BDict [(''senderid'', BStr sender_id),
                                                (''password'', BStr sender_password),
                                                (''controlid'', BTime now),
                                                (''uniqueid'', BBool False),
                                                (''dtdversion'', BFloat 3 1),
                                                (''includewhitespace'', BBool False)]),
                                       (''operation'',
                                         BDict [(''authentication'',
                                                   BDict [(''sessionid'', BStr (session_id s))]),
                                                (''content'',
                                                   BDict [(''function'',
                                                     BDict [(''@controlid'', BStr uuid4),
                                                            (''query'', query)])])])])]))))"

text \<open>A sample stream.\<close>

definition customers :: stream where
  "customers =
     \<lparr>name = ''customers'', intacct_obj_name = Some ''CUSTOMER'',
      schema_properties =
        [(''CUSTOMERID'', JDict [(''type'', JStr ''string'')]),
         (''WHENMODIFIED'', JDict [(''type'', JStr ''string''), (''format'', JStr ''date-time'')])],
      config = [''sender_id'' \<mapsto> ''acme'', ''sender_password'' \<mapsto> ''secret''],
      session_id = ''abc123''\<rparr>"

section \<open>Properties of the response parser\<close>

lemma subscr_path:
  "subscr v k = (case lookup_path v [k] of None \<Rightarrow> (case v of JDict d \<Rightarrow> Inl (Exn KeyError [AObj (JStr k)]) | _ \<Rightarrow> Inl (Exn TypeError [])) | Some w \<Rightarrow> Inr w)"
  by (cases v) (auto split: option.splits)

lemma lookup_path_Cons:
  "lookup_path v (k # ks) = (case subscr v k of Inl e \<Rightarrow> None | Inr w \<Rightarrow> lookup_path w ks)"
  by (cases v) (auto split: option.splits)

lemma subscr_Inl_unclassified: "subscr v k = Inl e \<Longrightarrow> \<not> classified (exn_class e)"
  by (cases v) (auto split: option.splits)

lemma classify_classified:
  "classified (exn_class (classify code parsed (JDict msg) corr))"
  by (cases corr) (auto simp: classify_def)

lemma outer_error_dict:
  "outer_error parsed = Inr (msg, corr) \<Longrightarrow> \<exists>d. msg = JDict d"
  by (cases msg) (auto simp: outer_error_def and_then_def split: sum.splits)

lemma raise_for_status_classified:
  "returns (outer_error parsed) \<Longrightarrow> classified (exn_class (raise_for_status code parsed))"
  by (cases "outer_error parsed")
     (auto simp: raise_for_status_def classify_classified dest!: outer_error_dict)

lemma lookup_path_ConsD:
  "lookup_path v (k # ks) = Some w \<Longrightarrow> \<exists>u. subscr v k = Inr u \<and> lookup_path u ks = Some w"
  by (cases v) (auto split: option.splits)

lemma lookup_path_1: "lookup_path v [k] = Some w \<Longrightarrow> subscr v k = Inr w"
  by (auto dest: lookup_path_ConsD)

lemma lookup_path_2:
  "lookup_path v [k1, k2] = Some w \<Longrightarrow> \<exists>u. subscr v k1 = Inr u \<and> subscr u k2 = Inr w"
  by (auto dest!: lookup_path_ConsD)

lemma lookup_path_3:
  "lookup_path v [k1, k2, k3] = Some w \<Longrightarrow>
     \<exists>u1 u2. subscr v k1 = Inr u1 \<and> subscr u1 k2 = Inr u2 \<and> subscr u2 k3 = Inr w"
  by (auto dest!: lookup_path_ConsD)

lemma status_200_control_failure:
  assumes "lookup_path parsed [''response'', ''control'', ''status''] = Some (JStr ''failure'')"
      and "lookup_path parsed [''response'', ''errormessage''] = Some em"
      and "dec em = Inr m"
  shows "status_200 obj dec parsed =
           ([], Inl (Exn WrongParamsError [AStr [Lit ''Some of the parameters are wrong''], AObj m]))"
proof -
  from assms(1) obtain r c where r: "subscr parsed ''response'' = Inr r"
    and c: "subscr r ''control'' = Inr c" and s: "subscr c ''status'' = Inr (JStr ''failure'')"
    by (auto dest!: lookup_path_3)
  from assms(2) r have em: "subscr r ''errormessage'' = Inr em"
    by (auto dest!: lookup_path_2)
  have cs: "control_status parsed = Inr (JStr ''failure'')"
    by (simp add: control_status_def and_then_def r c s)
  show ?thesis
    by (simp add: status_200_def bind_api_response_def check_control_failure_def cs
          and_then_def r em assms(3))
qed

lemma status_200_success_prefix:
  assumes "lookup_path parsed [''response'', ''control'', ''status''] = Some (JStr ''success'')"
      and "lookup_path parsed [''response'', ''operation''] = Some op"
  shows "status_200 obj dec parsed =
     (case and_then (check_authentication (Some op)) (\<lambda>api_response.
           and_then (result_data obj api_response) (\<lambda>ret. Inr (api_response, ret))) of
        Inl e \<Rightarrow> ([], Inl e)
      | Inr (api_response, Some v) \<Rightarrow> ([], Inr (Some v))
      | Inr (api_response, None) \<Rightarrow>
          ([(ERROR, [Lit ''Intacct error response: '', FObj api_response])],
           and_then (desc_2 api_response) (\<lambda>d. Inr None)))"
proof -
  from assms(1) obtain r c where r: "subscr parsed ''response'' = Inr r"
    and c: "subscr r ''control'' = Inr c" and s: "subscr c ''status'' = Inr (JStr ''success'')"
    by (auto dest!: lookup_path_3)
  from assms(2) r have op: "subscr r ''operation'' = Inr op"
    by (auto dest!: lookup_path_2)
  have cs: "control_status parsed = Inr (JStr ''success'')"
    by (simp add: control_status_def and_then_def r c s)
  have b: "bind_api_response parsed = Inr (Some op)"
    by (simp add: bind_api_response_def cs and_then_def r op)
  have f: "check_control_failure dec parsed = Inr ()"
    by (simp add: check_control_failure_def cs and_then_def)
  show ?thesis
    by (simp add: status_200_def b f and_then_def)
qed

lemma check_authentication_failure:
  assumes "lookup_path op [''authentication'', ''status''] = Some (JStr ''failure'')"
      and "lookup_path op [''errormessage''] = Some em"
  shows "check_authentication (Some op) =
           Inl (Exn InvalidTokenError [AStr [Lit ''Invalid token / Incorrect credentials''], AObj em])"
proof -
  from assms(1) obtain a where "subscr op ''authentication'' = Inr a"
    "subscr a ''status'' = Inr (JStr ''failure'')" by (auto dest!: lookup_path_2)
  moreover from assms(2) have "subscr op ''errormessage'' = Inr em" by (rule lookup_path_1)
  ultimately show ?thesis by (simp add: check_authentication_def and_then_def)
qed

lemma check_authentication_pass:
  assumes "lookup_path op [''authentication'', ''status''] = Some a" and "a \<noteq> JStr ''failure''"
  shows "check_authentication (Some op) = Inr op"
proof -
  from assms(1) obtain u where "subscr op ''authentication'' = Inr u" "subscr u ''status'' = Inr a"
    by (auto dest!: lookup_path_2)
  then show ?thesis using assms(2) by (simp add: check_authentication_def and_then_def)
qed

lemma result_data_success:
  assumes "lookup_path op [''result'', ''status''] = Some (JStr ''success'')"
      and "lookup_path op [''result'', ''data'', obj] = Some v"
  shows "result_data obj op = Inr (Some v)"
proof -
  from assms(1) obtain r where r: "subscr op ''result'' = Inr r"
    and s: "subscr r ''status'' = Inr (JStr ''success'')" by (auto dest!: lookup_path_2)
  from assms(2) r obtain d where "subscr r ''data'' = Inr d" "subscr d obj = Inr v"
    by (auto dest!: lookup_path_3)
  with r s show ?thesis by (simp add: result_data_def and_then_def)
qed

lemma result_data_other:
  assumes "lookup_path op [''result'', ''status''] = Some rs" and "rs \<noteq> JStr ''success''"
  shows "result_data obj op = Inr None"
proof -
  from assms(1) obtain r where "subscr op ''result'' = Inr r" "subscr r ''status'' = Inr rs"
    by (auto dest!: lookup_path_2)
  with assms(2) show ?thesis by (simp add: result_data_def and_then_def)
qed

lemma lookup_path_step:
  "lookup_path v [k] = Some u \<Longrightarrow> lookup_path v (k # ks) = lookup_path u ks"
  by (cases v) (auto split: option.splits)

lemma get_walk_empty: "get_walk (JDict []) ks"
  by (cases ks) simp_all

lemma get_walk_step:
  assumes "get_walk v (k # ks)"
  shows "\<exists>w. py_get v k (JDict []) = Inr w \<and> get_walk w ks
             \<and> (lookup_path v [k] = Some w \<or> w = JDict [])"
  using assms by (cases v) (auto simp: get_walk_empty split: option.splits)

lemma get_walk_outer_error:
  assumes "get_walk parsed [''response'', ''errormessage'', ''error'', ''correction'']"
  shows "returns (outer_error parsed)"
proof -
  from get_walk_step [OF assms] obtain r where
    r: "py_get parsed ''response'' (JDict []) = Inr r"
    "get_walk r [''errormessage'', ''error'', ''correction'']" by blast
  from get_walk_step [OF r(2)] obtain em where
    em: "py_get r ''errormessage'' (JDict []) = Inr em" "get_walk em [''error'', ''correction'']"
    by blast
  from get_walk_step [OF em(2)] obtain msg where
    msg: "py_get em ''error'' (JDict []) = Inr msg" "get_walk msg [''correction'']" by blast
  from get_walk_step [OF msg(2)] obtain corr where
    corr: "py_get msg ''correction'' (JDict []) = Inr corr" by blast
  show ?thesis
    by (simp add: outer_error_def and_then_def r(1) em(1) msg(1) corr)
qed

lemma get_walk_desc_2:
  assumes w: "get_walk op [''result'', ''errormessage'', ''error'']" and e: "error_entry_ok op"
  shows "returns (desc_2 op)"
proof -
  from get_walk_step [OF w] obtain r where
    r: "py_get op ''result'' (JDict []) = Inr r" "get_walk r [''errormessage'', ''error'']"
    "lookup_path op [''result''] = Some r \<or> r = JDict []" by blast
  from get_walk_step [OF r(2)] obtain em where
    em: "py_get r ''errormessage'' (JDict []) = Inr em" "get_walk em [''error'']"
    "lookup_path r [''errormessage''] = Some em \<or> em = JDict []" by blast
  from get_walk_step [OF em(2)] obtain error where
    er: "py_get em ''error'' (JDict []) = Inr error"
    "lookup_path em [''error''] = Some error \<or> error = JDict []" by blast
  have d: "desc_2 op =
       (case error of
         JDict d \<Rightarrow> py_get error ''description2'' JNull
       | JList (x # xs) \<Rightarrow> py_get x ''description2'' JNull
       | _ \<Rightarrow> Inr (JStr ''''))"
    by (simp add: desc_2_def and_then_def r(1) em(1) er(1))
  show ?thesis
  proof (cases error)
    case JNull
    then show ?thesis by (simp add: d)
  next
    case (JStr s)
    then show ?thesis by (simp add: d)
  next
    case (JDict m)
    then show ?thesis by (simp add: d)
  next
    case (JList xs)
    show ?thesis
    proof (cases xs)
      case Nil
      with JList show ?thesis by (simp add: d)
    next
      case (Cons x xs')
      have em1: "em \<noteq> JDict []" using er(1) JList by auto
      with em(3) have l2: "lookup_path r [''errormessage''] = Some em" by simp
      then have r1: "r \<noteq> JDict []" by auto
      with r(3) have l1: "lookup_path op [''result''] = Some r" by simp
      from er(2) JList have l3: "lookup_path em [''error''] = Some error" by auto
      have "lookup_path op [''result'', ''errormessage'', ''error''] = Some error"
        by (simp add: lookup_path_step [OF l1] lookup_path_step [OF l2] l3)
      with e JList Cons have "is_mapping x" by (simp add: error_entry_ok_def)
      then obtain m where "x = JDict m" by (cases x) simp_all
      with JList Cons show ?thesis by (simp add: d)
    qed
  qed
qed

lemma status_200_classified:
  assumes ok: "envelope_ok obj dec parsed"
  shows "case snd (status_200 obj dec parsed) of
           Inl e \<Rightarrow> classified (exn_class e)
         | Inr (Some v) \<Rightarrow> True
         | Inr None \<Rightarrow> returns (outer_error parsed)"
proof -
  from ok obtain s where s: "lookup_path parsed [''response'', ''control'', ''status''] = Some s"
    by (auto simp: envelope_ok_def split: option.splits)
  from ok s have s_cases: "s = JStr ''failure'' \<or> s = JStr ''success''"
    by (auto simp: envelope_ok_def split: if_splits)
  then show ?thesis
  proof
    assume f: "s = JStr ''failure''"
    with ok s obtain em m where "lookup_path parsed [''response'', ''errormessage''] = Some em"
      "dec em = Inr m"
      by (cases "lookup_path parsed [''response'', ''errormessage'']";
          cases "dec (the (lookup_path parsed [''response'', ''errormessage'']))")
         (auto simp: envelope_ok_def)
    with s f show ?thesis by (simp add: status_200_control_failure)
  next
    assume sc: "s = JStr ''success''"
    with ok s obtain op where op: "lookup_path parsed [''response'', ''operation''] = Some op"
      by (auto simp: envelope_ok_def split: option.splits)
    from ok s sc op obtain a where a: "lookup_path op [''authentication'', ''status''] = Some a"
      by (auto simp: envelope_ok_def split: option.splits)
    note pre = status_200_success_prefix [OF s [unfolded sc] op]
    show ?thesis
    proof (cases "a = JStr ''failure''")
      case True
      with ok s sc op a obtain em where "lookup_path op [''errormessage''] = Some em"
        by (auto simp: envelope_ok_def)
      with a True show ?thesis
        by (simp add: pre check_authentication_failure and_then_def)
    next
      case False
      note auth = check_authentication_pass [OF a False]
      from ok s sc op a False obtain rs where rs: "lookup_path op [''result'', ''status''] = Some rs"
        by (auto simp: envelope_ok_def split: option.splits)
      show ?thesis
      proof (cases "rs = JStr ''success''")
        case True
        with ok s sc op a False rs obtain v where
          "lookup_path op [''result'', ''data'', obj] = Some v"
          by (auto simp: envelope_ok_def)
        with rs True show ?thesis
          by (simp add: pre auth result_data_success and_then_def)
      next
        case nr: False
        with ok s sc op a False rs
        have w: "get_walk op [''result'', ''errormessage'', ''error'']" "error_entry_ok op"
          "get_walk parsed [''response'', ''errormessage'', ''error'', ''correction'']"
          by (auto simp: envelope_ok_def)
        have d: "returns (desc_2 op)" by (rule get_walk_desc_2 [OF w(1,2)])
        have o: "returns (outer_error parsed)" by (rule get_walk_outer_error [OF w(3)])
        from d obtain x where "desc_2 op = Inr x" by (cases "desc_2 op") auto
        with o show ?thesis
          by (simp add: pre auth result_data_other [OF rs nr] and_then_def)
      qed
    qed
  qed
qed

lemma failure_branch_SomeD:
  assumes "failure_branch xml_parse resp = Some (parsed, op)"
  shows "status_code resp = 200" "xml_parse (resp_text resp) = Some parsed"
    "lookup_path parsed [''response'', ''control'', ''status''] = Some (JStr ''success'')"
    "lookup_path parsed [''response'', ''operation''] = Some op"
    "\<exists>a. lookup_path op [''authentication'', ''status''] = Some a \<and> a \<noteq> JStr ''failure''"
    "\<exists>rs. lookup_path op [''result'', ''status''] = Some rs \<and> rs \<noteq> JStr ''success''"
  using assms unfolding failure_branch_def
  by (simp_all split: if_splits option.splits)

lemma status_200_failure_branch:
  assumes "failure_branch xml_parse resp = Some (parsed, op)"
  shows "status_200 obj dec parsed =
           ([(ERROR, [Lit ''Intacct error response: '', FObj op])],
            and_then (desc_2 op) (\<lambda>d. Inr None))"
proof -
  note d = failure_branch_SomeD [OF assms]
  from d(5) obtain a where a: "lookup_path op [''authentication'', ''status''] = Some a"
    "a \<noteq> JStr ''failure''" by blast
  from d(6) obtain rs where rs: "lookup_path op [''result'', ''status''] = Some rs"
    "rs \<noteq> JStr ''success''" by blast
  show ?thesis
    by (simp add: status_200_success_prefix [OF d(3) d(4)] check_authentication_pass [OF a]
          result_data_other [OF rs] and_then_def)
qed

lemma subscr_InrD: "subscr v k = Inr w \<Longrightarrow> lookup_path v [k] = Some w"
  by (cases v) (auto split: option.splits)

lemma status_200_logs_only_failure_branch:
  assumes "status_code resp = 200" "xml_parse (resp_text resp) = Some parsed"
      and "failure_branch xml_parse resp = None"
  shows "fst (status_200 obj dec parsed) = []"
proof (cases "control_status parsed")
  case (Inl e)
  then show ?thesis
    by (simp add: status_200_def bind_api_response_def and_then_def)
next
  case (Inr s)
  then have s: "lookup_path parsed [''response'', ''control'', ''status''] = Some s"
    by (auto simp: control_status_def and_then_def lookup_path_Cons split: sum.splits)
  show ?thesis
  proof (cases "s = JStr ''success''")
    case False
    then show ?thesis
      using Inr
      by (auto simp: status_200_def bind_api_response_def check_control_failure_def
            check_authentication_def and_then_def split: sum.splits)
  next
    case True
    show ?thesis
    proof (cases "lookup_path parsed [''response'', ''operation'']")
      case None
      then have "bind_api_response parsed = Inl (case subscr parsed ''response'' of Inl e \<Rightarrow> e
          | Inr r \<Rightarrow> (case subscr r ''operation'' of Inl e \<Rightarrow> e | Inr x \<Rightarrow> undefined))"
        using Inr True
        by (auto simp: bind_api_response_def and_then_def lookup_path_Cons split: sum.splits)
      then show ?thesis by (simp add: status_200_def and_then_def)
    next
      case (Some op)
      note pre = status_200_success_prefix [OF s [unfolded True] Some]
      show ?thesis
      proof (cases "check_authentication (Some op)")
        case (Inl e)
        then show ?thesis by (simp add: pre and_then_def)
      next
        case au: (Inr op')
        then obtain a where a: "lookup_path op [''authentication'', ''status''] = Some a"
          "a \<noteq> JStr ''failure''" and op': "op' = op"
          by (auto simp: check_authentication_def and_then_def lookup_path_Cons
                split: sum.splits if_splits)
        show ?thesis
        proof (cases "result_data obj op")
          case (Inl e)
          then show ?thesis by (simp add: pre au op' and_then_def)
        next
          case rd: (Inr ret)
          show ?thesis
          proof (cases ret)
            case (Some v)
            then show ?thesis by (simp add: pre au op' rd and_then_def)
          next
            case None
            with rd obtain rs where "lookup_path op [''result'', ''status''] = Some rs"
              "rs \<noteq> JStr ''success''"
              by (auto simp: result_data_def and_then_def lookup_path_Cons
                    split: sum.splits if_splits)
            with assms s True Some a have False
              by (simp add: failure_branch_def)
            then show ?thesis ..
          qed
        qed
      qed
    qed
  qed
qed

lemma parse_response_log:
  "fst (parse_response obj xml_parse dec resp) =
     (case failure_branch xml_parse resp of
        Some (parsed, op) \<Rightarrow> [(ERROR, [Lit ''Intacct error response: '', FObj op])]
      | None \<Rightarrow> [])"
proof (cases "failure_branch xml_parse resp")
  case (Some po)
  obtain parsed op where po: "po = (parsed, op)" by (cases po)
  note d = failure_branch_SomeD [OF Some [unfolded po]]
  show ?thesis
    using d(1,2)
    by (cases "desc_2 op")
       (simp_all add: Some po parse_response_def
          status_200_failure_branch [OF Some [unfolded po]] and_then_def)
next
  case None
  show ?thesis
  proof (cases "xml_parse (resp_text resp)")
    case n: None
    then show ?thesis by (simp add: None parse_response_def)
  next
    case (Some parsed)
    show ?thesis
    proof (cases "status_code resp = 200")
      case False
      then show ?thesis by (simp add: None Some parse_response_def)
    next
      case True
      from status_200_logs_only_failure_branch [OF True Some None, of obj dec]
      show ?thesis
        by (cases "status_200 obj dec parsed")
           (auto simp: None Some True parse_response_def split: sum.splits option.splits)
    qed
  qed
qed

lemma desc_2_cases:
  assumes "lookup_path op [''result''] = Some (JDict r)"
  shows "desc_2 op =
    (case map_of r ''errormessage'' of
       None \<Rightarrow> Inr JNull
     | Some (JDict em) \<Rightarrow>
         (case map_of em ''error'' of
            None \<Rightarrow> Inr JNull
          | Some (JDict d) \<Rightarrow> Inr (case map_of d ''description2'' of Some v \<Rightarrow> v | None \<Rightarrow> JNull)
          | Some (JList []) \<Rightarrow> Inr (JStr '''')
          | Some (JList (JDict d # es)) \<Rightarrow>
              Inr (case map_of d ''description2'' of Some v \<Rightarrow> v | None \<Rightarrow> JNull)
          | Some (JList (e # es)) \<Rightarrow> Inl (Exn AttributeError [])
          | Some e \<Rightarrow> Inr (JStr ''''))
     | Some em \<Rightarrow> Inl (Exn AttributeError []))"
proof -
  from assms obtain d where op: "op = JDict d" and r: "map_of d ''result'' = Some (JDict r)"
    by (cases op) (auto split: option.splits)
  show ?thesis
    unfolding desc_2_def op
    by (simp add: r and_then_def split: option.splits json.splits list.splits)
qed

lemma failure_branch_raises:
  assumes fb: "failure_branch xml_parse resp = Some (parsed, op)"
      and d: "desc_2 op = Inr x"
      and o: "outer_error parsed = Inr (msg, corr)"
  shows "snd (parse_response obj xml_parse dec resp) = Inl (Exn PleaseTryAgainLaterError [AObj parsed])
       \<or> snd (parse_response obj xml_parse dec resp) = Inl (Exn SageIntacctSDKError [AStr [Lit ''Error: '', FObj parsed]])"
proof -
  note f = failure_branch_SomeD [OF fb]
  have "snd (parse_response obj xml_parse dec resp) = Inl (classify 200 parsed msg corr)"
    using f(1,2)
    by (simp add: parse_response_def status_200_failure_branch [OF fb] d and_then_def
          raise_for_status_def o)
  moreover from o obtain m where "msg = JDict m" by (auto dest: outer_error_dict)
  ultimately show ?thesis
    by (cases corr) (auto simp: classify_def)
qed

lemma lookup_path_dict:
  "lookup_path v (k # ks) = Some w \<Longrightarrow> \<exists>d. v = JDict d"
  by (cases v) auto

lemma failure_branch_result:
  assumes "failure_branch xml_parse resp = Some (parsed, op)"
  shows "\<exists>r. lookup_path op [''result''] = Some (JDict r)"
proof -
  from failure_branch_SomeD(6) [OF assms] obtain rs where
    rs: "lookup_path op [''result'', ''status''] = Some rs" by blast
  then obtain u where u: "subscr op ''result'' = Inr u" "lookup_path u [''status''] = Some rs"
    by (auto dest: lookup_path_ConsD)
  from u(2) obtain r where "u = JDict r" by (auto dest: lookup_path_dict)
  with u(1) show ?thesis by (auto dest: subscr_InrD)
qed

lemma lookup_path_under:
  assumes "lookup_path op [''result'', ''errormessage'', ''error''] = Some e"
      and "lookup_path op [''result''] = Some (JDict r)"
  shows "\<exists>em. map_of r ''errormessage'' = Some (JDict em) \<and> map_of em ''error'' = Some e"
proof -
  from assms have 1: "lookup_path (JDict r) [''errormessage'', ''error''] = Some e"
    by (simp add: lookup_path_step)
  then obtain x where x: "map_of r ''errormessage'' = Some x" "lookup_path x [''error''] = Some e"
    by (auto split: option.splits)
  from x(2) obtain em where "x = JDict em" by (auto dest: lookup_path_dict)
  with x show ?thesis by (auto split: option.splits)
qed

lemma lookup_path_errormessage:
  assumes "lookup_path op [''result''] = Some (JDict r)"
  shows "lookup_path op [''result'', ''errormessage''] = map_of r ''errormessage''"
  using assms by (simp add: lookup_path_step split: option.splits)

subsection \<open>The success path\<close>

lemma parse_response_success:
  assumes "xml_parse (resp_text resp) = Some parsed" and "status_code resp = 200"
      and "lookup_path parsed [''response'', ''control'', ''status''] = Some (JStr ''success'')"
      and "lookup_path parsed [''response'', ''operation''] = Some op"
      and "lookup_path op [''authentication'', ''status''] = Some a" and "a \<noteq> JStr ''failure''"
      and "lookup_path op [''result'', ''status''] = Some (JStr ''success'')"
      and "lookup_path op [''result'', ''data'', obj] = Some v"
  shows "parse_response obj xml_parse dec resp = ([], Inr v)"
  using assms(1,2)
  by (simp add: parse_response_def status_200_success_prefix [OF assms(3,4)]
        check_authentication_pass [OF assms(5,6)] result_data_success [OF assms(7,8)]
        and_then_def)

text \<open>
  C1. With HTTP 200 and the three statuses \<^verbatim>\<open>"success"\<close>, line 260 returns the entry of
  the data under the object name as it is, without bringing it to a list. For a response
  with one record the decoder yields a single mapping, and the parser returns that mapping
  (not a one-element list); for a response with no record the data entry has no such key
  and the parser raises \<open>KeyError\<close> (not the empty list); a list is returned as it is.
\<close>

theorem data_entry_not_normalized:
  "parse_response ''CUSTOMER''
     (\<lambda>s. Some (envelope (JDict [(''status'', JStr ''success''),
        (''data'', JDict [(''@count'', JStr ''1''),
                          (''CUSTOMER'', JDict [(''CUSTOMERID'', JStr ''C1'')])])])))
     Inr \<lparr>status_code = 200, resp_text = ''<response>...</response>''\<rparr>
   = ([], Inr (JDict [(''CUSTOMERID'', JStr ''C1'')]))
   \<and> parse_response ''CUSTOMER''
     (\<lambda>s. Some (envelope (JDict [(''status'', JStr ''success''),
        (''data'', JDict [(''@count'', JStr ''0'')])])))
     Inr \<lparr>status_code = 200, resp_text = ''<response>...</response>''\<rparr>
   = ([], Inl (Exn KeyError [AObj (JStr ''CUSTOMER'')]))
   \<and> parse_response ''CUSTOMER''
     (\<lambda>s. Some (envelope (JDict [(''status'', JStr ''success''),
        (''data'', JDict [(''@count'', JStr ''2''),
                          (''CUSTOMER'', JList [JDict [(''CUSTOMERID'', JStr ''C1'')],
                                                JDict [(''CUSTOMERID'', JStr ''C2'')]])])])))
     Inr \<lparr>status_code = 200, resp_text = ''<response>...</response>''\<rparr>
   = ([], Inr (JList [JDict [(''CUSTOMERID'', JStr ''C1'')], JDict [(''CUSTOMERID'', JStr ''C2'')]]))"
  by (simp add: parse_response_def status_200_def bind_api_response_def control_status_def
        check_control_failure_def check_authentication_def result_data_def and_then_def
        envelope_def)

subsection \<open>Which errors the parser raises\<close>

text \<open>
  C2, as stated, fails: a body that decodes but is not the vendor's envelope makes a
  subscript raise \<open>KeyError\<close>, which is not a class of \<^verbatim>\<open>tap_intacct.exceptions\<close>.
\<close>

theorem unclassified_error_escapes:
  "snd (parse_response ''CUSTOMER'' (\<lambda>s. Some (JDict [(''html'', JNull)])) Inr
          \<lparr>status_code = 200, resp_text = ''<html/>''\<rparr>)
     = Inl (Exn KeyError [AObj (JStr ''response'')])
   \<and> \<not> classified KeyError"
  by (simp add: parse_response_def status_200_def bind_api_response_def control_status_def
        and_then_def)

text \<open>
  C2, amended. The parser returns a value or raises one exception. The exception is of a
  class of \<^verbatim>\<open>tap_intacct.exceptions\<close> in each of these cases: the body does not decode;
  the body decodes, the status is not 200 and the chain \<^verbatim>\<open>response\<close>,
  \<^verbatim>\<open>errormessage\<close>, \<^verbatim>\<open>error\<close>, \<^verbatim>\<open>correction\<close> of lines 285--288 is called on
  mappings only (absent entries count as mappings); the body decodes, the status is 200
  and the body has the envelope that \<open>envelope_ok\<close> spells out.
\<close>

theorem parse_response_classified:
  assumes "xml_parse (resp_text resp) = None \<or>
           (\<exists>parsed. xml_parse (resp_text resp) = Some parsed \<and>
              (if status_code resp = 200 then envelope_ok obj dec parsed
               else get_walk parsed [''response'', ''errormessage'', ''error'', ''correction'']))"
  shows "case snd (parse_response obj xml_parse dec resp) of
           Inr v \<Rightarrow> True
         | Inl e \<Rightarrow> classified (exn_class e)"
proof (cases "xml_parse (resp_text resp)")
  case None
  then show ?thesis by (simp add: parse_response_def decode_failure_def Let_def)
next
  case (Some parsed)
  show ?thesis
  proof (cases "status_code resp = 200")
    case False
    with Some assms
    have "get_walk parsed [''response'', ''errormessage'', ''error'', ''correction'']"
      by simp
    from get_walk_outer_error [OF this] Some False show ?thesis
      by (simp add: parse_response_def raise_for_status_classified)
  next
    case True
    with Some assms have ok: "envelope_ok obj dec parsed" by simp
    obtain lg r where s: "status_200 obj dec parsed = (lg, r)" by (cases "status_200 obj dec parsed")
    from status_200_classified [OF ok] s Some True show ?thesis
      by (auto simp: parse_response_def raise_for_status_classified split: sum.splits option.splits)
  qed
qed

theorem parse_response_classified_witness:
  "envelope_ok ''CUSTOMER'' Inr
     (envelope (JDict [(''status'', JStr ''failure''),
        (''errormessage'', JDict [(''error'', JDict [(''description2'', JStr ''Invalid field'')])])]))
   \<and> (case snd (parse_response ''CUSTOMER''
        (\<lambda>s. Some (envelope (JDict [(''status'', JStr ''failure''),
           (''errormessage'', JDict [(''error'', JDict [(''description2'', JStr ''Invalid field'')])])])))
        Inr \<lparr>status_code = 200, resp_text = ''<response>...</response>''\<rparr>) of
         Inr v \<Rightarrow> False
       | Inl e \<Rightarrow> classified (exn_class e))"
proof -
  let ?doc = "envelope (JDict [(''status'', JStr ''failure''),
        (''errormessage'', JDict [(''error'', JDict [(''description2'', JStr ''Invalid field'')])])])"
  let ?resp = "\<lparr>status_code = 200, resp_text = ''<response>...</response>''\<rparr>"
  have ok: "envelope_ok ''CUSTOMER'' Inr ?doc"
    by (simp add: envelope_ok_def envelope_def error_entry_ok_def)
  have h: "(\<lambda>s. Some ?doc) (resp_text ?resp) = None \<or>
           (\<exists>parsed. (\<lambda>s. Some ?doc) (resp_text ?resp) = Some parsed \<and>
              (if status_code ?resp = 200 then envelope_ok ''CUSTOMER'' Inr parsed
               else get_walk parsed [''response'', ''errormessage'', ''error'', ''correction'']))"
    using ok by simp
  have nr: "\<exists>e. snd (parse_response ''CUSTOMER'' (\<lambda>s. Some ?doc) Inr ?resp) = Inl e"
    by (simp add: parse_response_def status_200_def bind_api_response_def control_status_def
        check_control_failure_def check_authentication_def result_data_def and_then_def
        envelope_def desc_2_def)
  from parse_response_classified [OF h] nr ok show ?thesis
    by (auto split: sum.splits)
qed

subsection \<open>Classification by status code\<close>

text \<open>
  Let the body decode, let the parser reach line 285 (the status is not 200, or the block
  for 200 falls through) and let lines 285--288 find the outer error, which is then a
  mapping. The class raised is \<open>AuthFailure\<close> for 400 with \<^verbatim>\<open>errorno\<close> equal to
  \<^verbatim>\<open>"GW-0011"\<close>, \<open>InvalidRequest\<close> for any other 400, \<open>InvalidTokenError\<close> for 401,
  \<open>NoPrivilegeError\<close> for 403, \<open>NotFoundItemError\<close> for 404, \<open>ExpiredTokenError\<close> for 498,
  \<open>InternalServerError\<close> for 500; for every other status it is
  \<open>PleaseTryAgainLaterError\<close> when Python's \<^verbatim>\<open>in\<close> finds the phrase in the correction (as
  a substring of a text, as an element of a list, as a key of a mapping) and otherwise
  \<open>SageIntacctSDKError\<close>, whose message holds the whole decoded response.
\<close>

lemma classification_of_mapping_error:
  assumes dec: "xml_parse (resp_text resp) = Some parsed"
      and reach: "status_code resp \<noteq> 200 \<or> snd (status_200 obj dec parsed) = Inr None"
      and outer: "outer_error parsed = Inr (JDict msg, corr)"
  shows "\<exists>e. snd (parse_response obj xml_parse dec resp) = Inl e \<and>
           exn_class e =
             (if status_code resp = 400 then
                (if map_of msg ''errorno'' = Some (JStr ''GW-0011'') then AuthFailure
                 else InvalidRequest)
              else if status_code resp = 401 then InvalidTokenError
              else if status_code resp = 403 then NoPrivilegeError
              else if status_code resp = 404 then NotFoundItemError
              else if status_code resp = 498 then ExpiredTokenError
              else if status_code resp = 500 then InternalServerError
              else if (case corr of
                         JStr s \<Rightarrow> sublist ''Please Try Again Later'' s
                       | JList xs \<Rightarrow> JStr ''Please Try Again Later'' \<in> set xs
                       | JDict d \<Rightarrow> ''Please Try Again Later'' \<in> fst ` set d
                       | JNull \<Rightarrow> False)
                   then PleaseTryAgainLaterError
              else SageIntacctSDKError) \<and>
           (exn_class e = SageIntacctSDKError \<longrightarrow>
              exn_args e = [AStr [Lit ''Error: '', FObj parsed]])"
proof -
  have r: "snd (parse_response obj xml_parse dec resp)
             = Inl (classify (status_code resp) parsed (JDict msg) corr)"
    using dec reach outer
    by (cases "status_200 obj dec parsed")
       (auto simp: parse_response_def raise_for_status_def split: sum.splits option.splits)
  show ?thesis
    unfolding r
    by (cases corr) (auto simp: classify_def split: option.splits)
qed

text \<open>
  C3. The classification by status code is not reached by every decoded response that
  gets to line 285. When the body carries several \<^verbatim>\<open>error\<close> elements the decoder yields a
  list for \<^verbatim>\<open>response.errormessage.error\<close>, and \<^verbatim>\<open>exception_msg.get("correction", {})\<close>
  at line 288 raises \<open>AttributeError\<close> before any status is looked at: a 400 is then not
  \<open>InvalidRequest\<close>, a 401 not \<open>InvalidTokenError\<close>, a 500 not \<open>InternalServerError\<close>.
  Lines 266--272 do take care of a list for the error entry of a result.
\<close>

theorem list_of_errors_not_classified:
  "snd (parse_response ''CUSTOMER''
          (\<lambda>s. Some (error_document (JList [JDict [(''errorno'', JStr ''XL03000006'')],
                                              JDict [(''errorno'', JStr ''XL03000009'')]])))
          Inr \<lparr>status_code = 400, resp_text = ''<response>...</response>''\<rparr>)
     = Inl (Exn AttributeError [])
   \<and> snd (parse_response ''CUSTOMER''
          (\<lambda>s. Some (error_document (JList [JDict [(''errorno'', JStr ''XL03000006'')],
                                              JDict [(''errorno'', JStr ''XL03000009'')]])))
          Inr \<lparr>status_code = 401, resp_text = ''<response>...</response>''\<rparr>)
     = Inl (Exn AttributeError [])
   \<and> snd (parse_response ''CUSTOMER''
          (\<lambda>s. Some (error_document (JList [JDict [(''errorno'', JStr ''XL03000006'')],
                                              JDict [(''errorno'', JStr ''XL03000009'')]])))
          Inr \<lparr>status_code = 500, resp_text = ''<response>...</response>''\<rparr>)
     = Inl (Exn AttributeError [])
   \<and> \<not> classified AttributeError"
  by (simp add: parse_response_def and_then_def raise_for_status_def outer_error_def
        error_document_def)

subsection \<open>Decode failures\<close>

text \<open>
  C4. When the body does not decode, the raised class is decided by the status code alone:
  502 gives \<open>BadGatewayError\<close>, 503 \<open>OfflineServiceError\<close>, 429 \<open>RateLimitError\<close>, every other
  code (200 included) \<open>InvalidXmlResponse\<close>; the message carries the status code and the raw
  body, nothing is logged and nothing is returned.
\<close>

theorem decode_failure_by_status:
  assumes "xml_parse (resp_text resp) = None"
  shows "parse_response obj xml_parse dec resp =
           ([], Inl (Exn (if status_code resp = 502 then BadGatewayError
                          else if status_code resp = 503 then OfflineServiceError
                          else if status_code resp = 429 then RateLimitError
                          else InvalidXmlResponse)
                      [AStr [Lit ''Response status code: '', FInt (status_code resp),
                             Lit '', response: '', FStr (resp_text resp)]]))"
  using assms by (simp add: parse_response_def decode_failure_def)

theorem decode_failure_by_status_witness:
  "parse_response ''CUSTOMER'' (\<lambda>s. None) Inr \<lparr>status_code = 503, resp_text = ''Service Unavailable''\<rparr>
     = ([], Inl (Exn OfflineServiceError
                   [AStr [Lit ''Response status code: '', FInt 503,
                          Lit '', response: '', FStr ''Service Unavailable'']]))
   \<and> parse_response ''CUSTOMER'' (\<lambda>s. None) Inr \<lparr>status_code = 200, resp_text = ''<html''\<rparr>
     = ([], Inl (Exn InvalidXmlResponse
                   [AStr [Lit ''Response status code: '', FInt 200,
                          Lit '', response: '', FStr ''<html'']]))"
  using decode_failure_by_status [of "\<lambda>s. None" "\<lparr>status_code = 503, resp_text = ''Service Unavailable''\<rparr>" "''CUSTOMER''" Inr]
        decode_failure_by_status [of "\<lambda>s. None" "\<lparr>status_code = 200, resp_text = ''<html''\<rparr>" "''CUSTOMER''" Inr]
  by simp


subsection \<open>The branch of a failed result\<close>

text \<open>
  C5, as stated, fails in one detail: when the result carries no error entry (or the error
  mapping has no \<^verbatim>\<open>description2\<close>), \<^verbatim>\<open>desc_2\<close> is \<^verbatim>\<open>None\<close>, not the empty string,
  because the default \<^verbatim>\<open>{}\<close> of \<^verbatim>\<open>.get("error", {})\<close> is a mapping.
\<close>

theorem desc_2_absent_is_none:
  "desc_2 (JDict [(''authentication'', JDict [(''status'', JStr ''success'')]),
                  (''result'', JDict [(''status'', JStr ''failure'')])]) = Inr JNull
   \<and> desc_2 (JDict [(''authentication'', JDict [(''status'', JStr ''success'')]),
                  (''result'', JDict [(''status'', JStr ''failure'')])]) \<noteq> Inr (JStr [])"
  by (simp add: desc_2_def and_then_def)

text \<open>
  C5, amended. The parser writes a log entry exactly for the responses of the failed-result
  branch (HTTP 200, control status \<^verbatim>\<open>"success"\<close>, authentication status not
  \<^verbatim>\<open>"failure"\<close>, result status not \<^verbatim>\<open>"success"\<close>): one entry, at error severity, with
  the whole operation payload. In that branch \<^verbatim>\<open>desc_2\<close> is the \<^verbatim>\<open>description2\<close> of
  the error mapping, or of the first mapping when the error entry is a non-empty list;
  it is \<^verbatim>\<open>None\<close> when that mapping has no \<^verbatim>\<open>description2\<close> and when the error message
  or the error entry is absent, and the empty string when the error entry is null, a text
  or an empty list. When these walks and the one of lines 285--288 raise nothing, the
  exception raised is \<open>PleaseTryAgainLaterError\<close> or \<open>SageIntacctSDKError\<close>, and either
  carries the whole decoded response (\<^verbatim>\<open>description2\<close> within it).
\<close>

theorem failed_result_logged_and_raised:
  "fst (parse_response obj xml_parse dec resp) =
     (case failure_branch xml_parse resp of
        Some (parsed, op) \<Rightarrow> [(ERROR, [Lit ''Intacct error response: '', FObj op])]
      | None \<Rightarrow> [])
   \<and> (\<forall>parsed op. failure_branch xml_parse resp = Some (parsed, op) \<longrightarrow>
        (\<forall>d. lookup_path op [''result'', ''errormessage'', ''error''] = Some (JDict d) \<longrightarrow>
           desc_2 op = Inr (case map_of d ''description2'' of Some v \<Rightarrow> v | None \<Rightarrow> JNull))
      \<and> (\<forall>d es. lookup_path op [''result'', ''errormessage'', ''error'']
                   = Some (JList (JDict d # es)) \<longrightarrow>
           desc_2 op = Inr (case map_of d ''description2'' of Some v \<Rightarrow> v | None \<Rightarrow> JNull))
      \<and> (lookup_path op [''result'', ''errormessage''] = None \<longrightarrow> desc_2 op = Inr JNull)
      \<and> (\<forall>em. lookup_path op [''result'', ''errormessage''] = Some (JDict em) \<and>
              map_of em ''error'' = None \<longrightarrow> desc_2 op = Inr JNull)
      \<and> (\<forall>e. lookup_path op [''result'', ''errormessage'', ''error''] = Some e \<and>
              (e = JNull \<or> e = JList [] \<or> (\<exists>s. e = JStr s)) \<longrightarrow> desc_2 op = Inr (JStr []))
      \<and> (\<forall>x msg corr. desc_2 op = Inr x \<and> outer_error parsed = Inr (msg, corr) \<longrightarrow>
           snd (parse_response obj xml_parse dec resp)
             = Inl (Exn PleaseTryAgainLaterError [AObj parsed])
         \<or> snd (parse_response obj xml_parse dec resp)
             = Inl (Exn SageIntacctSDKError [AStr [Lit ''Error: '', FObj parsed]])))"
proof (intro conjI allI impI)
  show "fst (parse_response obj xml_parse dec resp) =
     (case failure_branch xml_parse resp of
        Some (parsed, op) \<Rightarrow> [(ERROR, [Lit ''Intacct error response: '', FObj op])]
      | None \<Rightarrow> [])"
    by (rule parse_response_log)
next
  fix parsed op d
  assume fb: "failure_branch xml_parse resp = Some (parsed, op)"
     and e: "lookup_path op [''result'', ''errormessage'', ''error''] = Some (JDict d)"
  from failure_branch_result [OF fb] obtain r where r: "lookup_path op [''result''] = Some (JDict r)"
    by blast
  from lookup_path_under [OF e r]
  show "desc_2 op = Inr (case map_of d ''description2'' of Some v \<Rightarrow> v | None \<Rightarrow> JNull)"
    by (auto simp: desc_2_cases [OF r])
next
  fix parsed op d es
  assume fb: "failure_branch xml_parse resp = Some (parsed, op)"
     and e: "lookup_path op [''result'', ''errormessage'', ''error''] = Some (JList (JDict d # es))"
  from failure_branch_result [OF fb] obtain r where r: "lookup_path op [''result''] = Some (JDict r)"
    by blast
  from lookup_path_under [OF e r]
  show "desc_2 op = Inr (case map_of d ''description2'' of Some v \<Rightarrow> v | None \<Rightarrow> JNull)"
    by (auto simp: desc_2_cases [OF r])
next
  fix parsed op
  assume fb: "failure_branch xml_parse resp = Some (parsed, op)"
     and e: "lookup_path op [''result'', ''errormessage''] = None"
  from failure_branch_result [OF fb] obtain r where r: "lookup_path op [''result''] = Some (JDict r)"
    by blast
  from e show "desc_2 op = Inr JNull"
    by (simp add: desc_2_cases [OF r] lookup_path_errormessage [OF r])
next
  fix parsed op em
  assume fb: "failure_branch xml_parse resp = Some (parsed, op)"
     and e: "lookup_path op [''result'', ''errormessage''] = Some (JDict em) \<and> map_of em ''error'' = None"
  from failure_branch_result [OF fb] obtain r where r: "lookup_path op [''result''] = Some (JDict r)"
    by blast
  from e show "desc_2 op = Inr JNull"
    by (simp add: desc_2_cases [OF r] lookup_path_errormessage [OF r])
next
  fix parsed op e
  assume fb: "failure_branch xml_parse resp = Some (parsed, op)"
     and e: "lookup_path op [''result'', ''errormessage'', ''error''] = Some e \<and>
              (e = JNull \<or> e = JList [] \<or> (\<exists>s. e = JStr s))"
  from failure_branch_result [OF fb] obtain r where r: "lookup_path op [''result''] = Some (JDict r)"
    by blast
  from e have e1: "lookup_path op [''result'', ''errormessage'', ''error''] = Some e" by simp
  from lookup_path_under [OF e1 r] e
  show "desc_2 op = Inr (JStr [])"
    by (auto simp: desc_2_cases [OF r])
next
  fix parsed op x msg corr
  assume fb: "failure_branch xml_parse resp = Some (parsed, op)"
     and e: "desc_2 op = Inr x \<and> outer_error parsed = Inr (msg, corr)"
  then show "snd (parse_response obj xml_parse dec resp)
             = Inl (Exn PleaseTryAgainLaterError [AObj parsed])
         \<or> snd (parse_response obj xml_parse dec resp)
             = Inl (Exn SageIntacctSDKError [AStr [Lit ''Error: '', FObj parsed]])"
    using failure_branch_raises by blast
qed

theorem failed_result_logged_and_raised_witness:
  "failure_branch
     (\<lambda>s. Some (envelope (JDict [(''status'', JStr ''failure''),
        (''errormessage'', JDict [(''error'', JDict [(''description2'', JStr ''Invalid field'')])])])))
     \<lparr>status_code = 200, resp_text = ''<response>...</response>''\<rparr> \<noteq> None
   \<and> fst (parse_response ''CUSTOMER''
     (\<lambda>s. Some (envelope (JDict [(''status'', JStr ''failure''),
        (''errormessage'', JDict [(''error'', JDict [(''description2'', JStr ''Invalid field'')])])])))
     Inr \<lparr>status_code = 200, resp_text = ''<response>...</response>''\<rparr>)
     = [(ERROR, [Lit ''Intacct error response: '',
          FObj (JDict [(''authentication'', JDict [(''status'', JStr ''success'')]),
            (''result'', JDict [(''status'', JStr ''failure''),
              (''errormessage'',
                JDict [(''error'', JDict [(''description2'', JStr ''Invalid field'')])])])])])]
   \<and> desc_2 (JDict [(''authentication'', JDict [(''status'', JStr ''success'')]),
            (''result'', JDict [(''status'', JStr ''failure''),
              (''errormessage'',
                JDict [(''error'', JDict [(''description2'', JStr ''Invalid field'')])])])])
     = Inr (JStr ''Invalid field'')"
proof -
  let ?res = "JDict [(''status'', JStr ''failure''),
        (''errormessage'', JDict [(''error'', JDict [(''description2'', JStr ''Invalid field'')])])]"
  let ?op = "JDict [(''authentication'', JDict [(''status'', JStr ''success'')]), (''result'', ?res)]"
  let ?resp = "\<lparr>status_code = 200, resp_text = ''<response>...</response>''\<rparr>"
  have fb: "failure_branch (\<lambda>s. Some (envelope ?res)) ?resp = Some (envelope ?res, ?op)"
    by (simp add: failure_branch_def envelope_def)
  have lp: "lookup_path ?op [''result'', ''errormessage'', ''error'']
              = Some (JDict [(''description2'', JStr ''Invalid field'')])"
    by simp
  note t = failed_result_logged_and_raised [of "''CUSTOMER''" "\<lambda>s. Some (envelope ?res)" Inr ?resp]
  from t fb have 1: "fst (parse_response ''CUSTOMER'' (\<lambda>s. Some (envelope ?res)) Inr ?resp)
      = [(ERROR, [Lit ''Intacct error response: '', FObj ?op])]"
    by simp
  from t fb lp have 2: "desc_2 ?op = Inr (JStr ''Invalid field'')"
    by simp
  from fb 1 2 show ?thesis by simp
qed

section \<open>Properties of the date functions\<close>

lemma of_char_digit_char: "k < 10 \<Longrightarrow> (of_char (digit_char k) :: nat) = 48 + k"
  by (simp add: digit_char_def)

lemma digit_char_not_sep:
  "k < 10 \<Longrightarrow> digit_char k \<noteq> CHR ''/''" "k < 10 \<Longrightarrow> digit_char k \<noteq> CHR '':''"
  "k < 10 \<Longrightarrow> digit_char k \<noteq> CHR '' ''"
  by (auto dest!: arg_cong [where f = "of_char :: char \<Rightarrow> nat"] simp: of_char_digit_char)

lemma digit_char_not_space: "k < 10 \<Longrightarrow> \<not> is_space (digit_char k)"
  by (simp add: is_space_def of_char_digit_char Let_def)

lemma all_matches_Chr:
  "all_matches (Chr c # its) s =
     (case s of [] \<Rightarrow> [] | c' # r \<Rightarrow> if c' = c then all_matches its r else [])"
  by (cases s) (auto simp: case_prod_unfold)

lemma all_matches_Grp:
  "all_matches (Grp alts # its) s =
     concat (map (\<lambda>alt. case match_atoms alt s of
                           None \<Rightarrow> []
                         | Some (t, r) \<Rightarrow> map (\<lambda>(gs, r'). (t # gs, r')) (all_matches its r)) alts)"
  by (induction alts) (auto simp: map_filter_simps split: option.splits)

lemma match_M:
  assumes "a < 6" "b < 10"
  shows "all_matches (dir_M # Chr CHR '':'' # its) (digit_char a # digit_char b # CHR '':'' # rest)
         = map (\<lambda>(gs, r). ([digit_char a, digit_char b] # gs, r)) (all_matches its rest)"
  using assms
  by (simp add: dir_M_def all_matches_Grp all_matches_Chr of_char_digit_char digit_char_not_sep)

lemma match_m:
  assumes "(a = 1 \<and> b \<le> 2) \<or> (a = 0 \<and> 1 \<le> b \<and> b < 10)"
  shows "all_matches (dir_m # Chr CHR ''/'' # its) (digit_char a # digit_char b # CHR ''/'' # rest)
         = map (\<lambda>(gs, r). ([digit_char a, digit_char b] # gs, r)) (all_matches its rest)"
  using assms
  by (elim disjE conjE)
     (simp_all add: dir_m_def all_matches_Grp all_matches_Chr of_char_digit_char digit_char_not_sep)

lemma match_d:
  assumes "(a = 3 \<and> b \<le> 1) \<or> ((a = 1 \<or> a = 2) \<and> b < 10) \<or> (a = 0 \<and> 1 \<le> b \<and> b < 10)"
  shows "all_matches (dir_d # Chr CHR ''/'' # its) (digit_char a # digit_char b # CHR ''/'' # rest)
         = map (\<lambda>(gs, r). ([digit_char a, digit_char b] # gs, r)) (all_matches its rest)"
  using assms
  by (elim disjE conjE)
     (simp_all add: dir_d_def all_matches_Grp all_matches_Chr of_char_digit_char digit_char_not_sep)

lemma match_H:
  assumes "(a = 2 \<and> b \<le> 3) \<or> (a \<le> 1 \<and> b < 10)"
  shows "all_matches (dir_H # Chr CHR '':'' # its) (digit_char a # digit_char b # CHR '':'' # rest)
         = map (\<lambda>(gs, r). ([digit_char a, digit_char b] # gs, r)) (all_matches its rest)"
  using assms
  by (elim disjE conjE)
     (simp_all add: dir_H_def all_matches_Grp all_matches_Chr of_char_digit_char digit_char_not_sep)

lemma is_space_blank: "is_space CHR '' ''"
  by (simp add: is_space_def)

lemma item_matches_Ws:
  assumes "h < 10"
  shows "item_matches Ws (CHR '' '' # digit_char h # rest) = [(None, digit_char h # rest)]"
proof -
  have "takeWhile is_space (CHR '' '' # digit_char h # rest) = [CHR '' '']"
    using assms by (simp add: is_space_blank digit_char_not_space)
  then show ?thesis by simp
qed

lemma all_matches_Ws:
  assumes "h < 10"
  shows "all_matches (Ws # its) (CHR '' '' # digit_char h # rest) = all_matches its (digit_char h # rest)"
  unfolding all_matches.simps item_matches_Ws [OF assms]
  by (simp add: case_prod_unfold)

lemma match_Y:
  assumes "a < 10" "b < 10" "c < 10" "d < 10"
  shows "all_matches (dir_Y # its) (digit_char a # digit_char b # digit_char c # digit_char d # rest)
         = map (\<lambda>(gs, r). ([digit_char a, digit_char b, digit_char c, digit_char d] # gs, r))
               (all_matches its rest)"
  using assms
  by (simp add: dir_Y_def all_matches_Grp of_char_digit_char)

lemma match_S_end:
  assumes "a < 6" "b < 10"
  shows "all_matches [dir_S] [digit_char a, digit_char b]
         = [([[digit_char a, digit_char b]], []), ([[digit_char a]], [digit_char b])]"
  using assms
  by (simp add: dir_S_def all_matches_Grp of_char_digit_char)

lemma int_of_2: "a < 10 \<Longrightarrow> b < 10 \<Longrightarrow> int_of [digit_char a, digit_char b] = 10 * a + b"
  by (simp add: int_of_def of_char_digit_char)

lemma int_of_4:
  "a < 10 \<Longrightarrow> b < 10 \<Longrightarrow> c < 10 \<Longrightarrow> d < 10 \<Longrightarrow>
   int_of [digit_char a, digit_char b, digit_char c, digit_char d]
     = 100 * (10 * a + b) + (10 * c + d)"
  by (simp add: int_of_def of_char_digit_char)

lemma pad2_digits: "a < 10 \<Longrightarrow> b < 10 \<Longrightarrow> pad2 (10 * a + b) = [digit_char a, digit_char b]"
  by (simp add: pad2_def)

lemma two_digits:
  obtains a b :: nat where "n = 10 * a + b" "b < 10"
  by (rule that [of "n div 10" "n mod 10"]) simp_all

lemma days_in_month_le: "days_in_month y m \<le> 31"
  by (simp add: days_in_month_def)

lemma strptime_fields:
  assumes mo: "1 \<le> mo" "mo \<le> 12" and d: "1 \<le> d" "d \<le> 31" and y: "y < 10000"
      and h: "h < 24" and mi: "mi < 60" and s: "s < 60"
  shows "strptime (pad2 mo @ ''/'' @ pad2 d @ ''/'' @ pad4 y @ '' '' @
                   pad2 h @ '':'' @ pad2 mi @ '':'' @ pad2 s) format_full
         = make_datetime y mo d h mi s"
proof -
  obtain m1 m2 where m: "mo = 10 * m1 + m2" "m2 < 10" by (rule two_digits)
  obtain d1 d2 where dd: "d = 10 * d1 + d2" "d2 < 10" by (rule two_digits)
  obtain y1 y2 where y12: "y div 100 = 10 * y1 + y2" "y2 < 10" by (rule two_digits)
  obtain y3 y4 where y34: "y mod 100 = 10 * y3 + y4" "y4 < 10" by (rule two_digits)
  obtain h1 h2 where hh: "h = 10 * h1 + h2" "h2 < 10" by (rule two_digits)
  obtain i1 i2 where ii: "mi = 10 * i1 + i2" "i2 < 10" by (rule two_digits)
  obtain s1 s2 where ss: "s = 10 * s1 + s2" "s2 < 10" by (rule two_digits)
  have cm: "(m1 = 1 \<and> m2 \<le> 2) \<or> (m1 = 0 \<and> 1 \<le> m2 \<and> m2 < 10)"
    using mo m by arith
  have cd: "(d1 = 3 \<and> d2 \<le> 1) \<or> ((d1 = 1 \<or> d1 = 2) \<and> d2 < 10) \<or> (d1 = 0 \<and> 1 \<le> d2 \<and> d2 < 10)"
    using d dd by arith
  have ch: "(h1 = 2 \<and> h2 \<le> 3) \<or> (h1 \<le> 1 \<and> h2 < 10)"
    using h hh by arith
  have ci: "i1 < 6" using mi ii by arith
  have cs: "s1 < 6" using s ss by arith
  have "y div 100 < 100" using y by simp
  then have cy1: "y1 < 10" using y12 by arith
  have "y mod 100 < 100" by simp
  then have cy3: "y3 < 10" using y34 by arith
  have b: "m1 < 10" "d1 < 10" "h1 < 10" "i1 < 10" "s1 < 10"
    using cm cd ch ci cs by auto
  have yy: "y = 100 * (10 * y1 + y2) + (10 * y3 + y4)"
    using y12 y34 mult_div_mod_eq [of 100 y] by simp
  have p: "pad2 mo = [digit_char m1, digit_char m2]" "pad2 d = [digit_char d1, digit_char d2]"
    "pad4 y = [digit_char y1, digit_char y2, digit_char y3, digit_char y4]"
    "pad2 h = [digit_char h1, digit_char h2]" "pad2 mi = [digit_char i1, digit_char i2]"
    "pad2 s = [digit_char s1, digit_char s2]"
    using b m dd hh ii ss cy1 cy3 y12 y34 by (simp_all add: pad2_digits pad4_def)
  have am: "all_matches format_full
      (pad2 mo @ ''/'' @ pad2 d @ ''/'' @ pad4 y @ '' '' @ pad2 h @ '':'' @ pad2 mi @ '':'' @ pad2 s)
     = [([pad2 mo, pad2 d, pad4 y, pad2 h, pad2 mi, pad2 s], []),
        ([pad2 mo, pad2 d, pad4 y, pad2 h, pad2 mi, [digit_char s1]], [digit_char s2])]"
    unfolding p format_full_def
    using b m(2) dd(2) y12(2) y34(2) hh(2) ii(2) ss(2) cy1 cy3
    by (simp add: match_m [OF cm] match_d [OF cd] match_Y all_matches_Ws match_H [OF ch]
          match_M [OF ci] match_S_end [OF cs] del: all_matches.simps)
  have io: "map int_of [pad2 mo, pad2 d, pad4 y, pad2 h, pad2 mi, pad2 s] = [mo, d, y, h, mi, s]"
    unfolding p using b m dd y12(2) y34(2) hh ii ss cy1 cy3 yy
    by (simp add: int_of_2 int_of_4)
  show ?thesis
    unfolding strptime_def am using io by simp
qed

lemma decimal_digit: "n < 10 \<Longrightarrow> decimal n = [digit_char n]"
  by (subst decimal.simps) simp

lemma decimal_step: "d < 10 \<Longrightarrow> 1 \<le> k \<Longrightarrow> decimal (10 * k + d) = decimal k @ [digit_char d]"
  by (subst decimal.simps) simp

lemma decimal_pad4:
  assumes "1000 \<le> n" "n < 10000"
  shows "decimal n = pad4 n"
proof -
  obtain n1 d4 where a: "n = 10 * n1 + d4" "d4 < 10" by (rule two_digits)
  obtain n2 d3 where b: "n1 = 10 * n2 + d3" "d3 < 10" by (rule two_digits)
  obtain n3 d2 where c: "n2 = 10 * n3 + d2" "d2 < 10" by (rule two_digits)
  have r: "1 \<le> n3" "n3 < 10" "1 \<le> n2" "1 \<le> n1"
    using assms a b c by arith+
  have e3: "decimal n3 = [digit_char n3]" using r(2) by (rule decimal_digit)
  have e2: "decimal n2 = decimal n3 @ [digit_char d2]"
    unfolding c(1) by (rule decimal_step [OF c(2) r(1)])
  have e1: "decimal n1 = decimal n2 @ [digit_char d3]"
    unfolding b(1) by (rule decimal_step [OF b(2) r(3)])
  have e0: "decimal n = decimal n1 @ [digit_char d4]"
    unfolding a(1) by (rule decimal_step [OF a(2) r(4)])
  have "decimal n = [digit_char n3, digit_char d2, digit_char d3, digit_char d4]"
    by (simp add: e0 e1 e2 e3)
  moreover have n: "n = 100 * n2 + (10 * d3 + d4)" using a(1) b(1) by simp
  have "10 * d3 + d4 < 100" using a(2) b(2) by arith
  then have "n div 100 = n2" "n mod 100 = 10 * d3 + d4"
    unfolding n by simp_all
  then have "pad4 n = [digit_char n3, digit_char d2, digit_char d3, digit_char d4]"
    unfolding pad4_def c(1)
    using a(2) b(2) c(2) r by (simp add: pad2_digits)
  ultimately show ?thesis by simp
qed

lemma strptime_formatted:
  assumes v: "valid_datetime dt" and y: "1000 \<le> year dt"
  shows "strptime (format_date_for_intacct dt) format_full
           = Inr (dt\<lparr>microsecond := 0, tzinfo := None\<rparr>)"
proof -
  from v have c: "1 \<le> month dt" "month dt \<le> 12" "1 \<le> day dt" "day dt \<le> 31"
    "year dt < 10000" "hour dt < 24" "minute dt < 60" "second dt < 60"
    using days_in_month_le [of "year dt" "month dt"] by (auto simp: valid_datetime_def)
  from v have v0: "valid_datetime (dt\<lparr>microsecond := 0, tzinfo := None\<rparr>)"
    by (simp add: valid_datetime_def)
  have "strptime (format_date_for_intacct dt) format_full
      = make_datetime (year dt) (month dt) (day dt) (hour dt) (minute dt) (second dt)"
    unfolding format_date_for_intacct_def decimal_pad4 [OF y c(5)]
    by (rule strptime_fields [OF c])
  also have "\<dots> = Inr (dt\<lparr>microsecond := 0, tzinfo := None\<rparr>)"
    using v0 by (simp add: make_datetime_def Let_def valid_datetime_def)
  finally show ?thesis .
qed

lemma strptime_error:
  "strptime s fmt = Inl e \<Longrightarrow> e = Exn ValueError []"
  unfolding strptime_def make_datetime_def Let_def
  by (simp split: list.splits prod.splits if_splits)

lemma parse_to_datetime_cases:
  "parse_to_datetime s =
     (case strptime s format_full of
        Inr dt \<Rightarrow> Inr dt
      | Inl e \<Rightarrow>
          (case strptime s format_date of
             Inr dt \<Rightarrow> Inr dt
           | Inl e' \<Rightarrow> Inl (Exn ValueError [AStr [Lit ''Invalid date format: '', FStr s]])))"
  by (auto simp: parse_to_datetime_def split: sum.splits dest!: strptime_error)

lemma digit_char_literals:
  "digit_char 0 = CHR ''0''" "digit_char 1 = CHR ''1''" "digit_char 2 = CHR ''2''"
  "digit_char 3 = CHR ''3''" "digit_char 4 = CHR ''4''" "digit_char 5 = CHR ''5''"
  "digit_char 6 = CHR ''6''" "digit_char 7 = CHR ''7''" "digit_char 8 = CHR ''8''"
  "digit_char 9 = CHR ''9''"
proof -
  have c: "char_of (of_char c :: nat) = c" for c by simp
  show "digit_char 0 = CHR ''0''" using c [of "CHR ''0''"] by (simp add: digit_char_def)
  show "digit_char 1 = CHR ''1''" using c [of "CHR ''1''"] by (simp add: digit_char_def)
  show "digit_char 2 = CHR ''2''" using c [of "CHR ''2''"] by (simp add: digit_char_def)
  show "digit_char 3 = CHR ''3''" using c [of "CHR ''3''"] by (simp add: digit_char_def)
  show "digit_char 4 = CHR ''4''" using c [of "CHR ''4''"] by (simp add: digit_char_def)
  show "digit_char 5 = CHR ''5''" using c [of "CHR ''5''"] by (simp add: digit_char_def)
  show "digit_char 6 = CHR ''6''" using c [of "CHR ''6''"] by (simp add: digit_char_def)
  show "digit_char 7 = CHR ''7''" using c [of "CHR ''7''"] by (simp add: digit_char_def)
  show "digit_char 8 = CHR ''8''" using c [of "CHR ''8''"] by (simp add: digit_char_def)
  show "digit_char 9 = CHR ''9''" using c [of "CHR ''9''"] by (simp add: digit_char_def)
qed

lemmas eval_defs = strptime_def format_full_def format_date_def dir_m_def dir_d_def dir_Y_def
  dir_H_def dir_M_def dir_S_def is_space_def int_of_def make_datetime_def valid_datetime_def
  days_in_month_def is_leap_def Let_def map_filter_simps

lemma strptime_full_example:
  "strptime ''01/15/2024 13:45:00'' format_full
     = Inr \<lparr>year = 2024, month = 1, day = 15, hour = 13, minute = 45, second = 0,
            microsecond = 0, tzinfo = None\<rparr>"
  by (simp add: eval_defs)

lemma strptime_date_only_example:
  "strptime ''01/15/2024'' format_full = Inl (Exn ValueError [])"
  "strptime ''01/15/2024'' format_date
     = Inr \<lparr>year = 2024, month = 1, day = 15, hour = 0, minute = 0, second = 0,
            microsecond = 0, tzinfo = None\<rparr>"
  by (simp_all add: eval_defs)

lemma strptime_bad_example:
  "strptime ''not-a-date'' format_full = Inl (Exn ValueError [])"
  "strptime ''not-a-date'' format_date = Inl (Exn ValueError [])"
  by (simp_all add: eval_defs)

lemma parse_full_example:
  "parse_to_datetime ''01/15/2024 13:45:00''
     = Inr \<lparr>year = 2024, month = 1, day = 15, hour = 13, minute = 45, second = 0,
            microsecond = 0, tzinfo = None\<rparr>"
  by (simp add: parse_to_datetime_cases strptime_full_example)

lemma parse_date_example:
  "parse_to_datetime ''01/15/2024''
     = Inr \<lparr>year = 2024, month = 1, day = 15, hour = 0, minute = 0, second = 0,
            microsecond = 0, tzinfo = None\<rparr>"
  by (simp add: parse_to_datetime_cases strptime_date_only_example)

lemma parse_bad_example:
  "parse_to_datetime ''not-a-date''
     = Inl (Exn ValueError [AStr [Lit ''Invalid date format: '', FStr ''not-a-date'']])"
  by (simp add: parse_to_datetime_cases strptime_bad_example)

subsection \<open>The date normalizer\<close>

text \<open>
  C6. \<^verbatim>\<open>_parse_to_datetime\<close> returns what the format \<^verbatim>\<open>%m/%d/%Y %H:%M:%S\<close> yields
  whenever that format parses the string; only when it fails, what the format
  \<^verbatim>\<open>%m/%d/%Y\<close> yields; and when both fail it raises \<open>ValueError\<close> with the message
  \<^verbatim>\<open>Invalid date format: \<close> followed by the string itself. No other outcome exists.
  \<^verbatim>\<open>"01/15/2024 13:45:00"\<close> gives 2024-01-15T13:45:00, \<^verbatim>\<open>"01/15/2024"\<close> gives
  2024-01-15T00:00:00 and \<^verbatim>\<open>"not-a-date"\<close> raises the error.
\<close>

theorem date_normalizer_order:
  "(\<forall>dt. strptime s format_full = Inr dt \<longrightarrow> parse_to_datetime s = Inr dt)
   \<and> (\<forall>e dt. strptime s format_full = Inl e \<and> strptime s format_date = Inr dt
          \<longrightarrow> parse_to_datetime s = Inr dt)
   \<and> (\<forall>e e'. strptime s format_full = Inl e \<and> strptime s format_date = Inl e'
          \<longrightarrow> parse_to_datetime s
                = Inl (Exn ValueError [AStr [Lit ''Invalid date format: '', FStr s]]))
   \<and> parse_to_datetime ''01/15/2024 13:45:00''
       = Inr \<lparr>year = 2024, month = 1, day = 15, hour = 13, minute = 45, second = 0,
              microsecond = 0, tzinfo = None\<rparr>
   \<and> parse_to_datetime ''01/15/2024''
       = Inr \<lparr>year = 2024, month = 1, day = 15, hour = 0, minute = 0, second = 0,
              microsecond = 0, tzinfo = None\<rparr>
   \<and> parse_to_datetime ''not-a-date''
       = Inl (Exn ValueError [AStr [Lit ''Invalid date format: '', FStr ''not-a-date'']])"
proof (intro conjI)
  show "parse_to_datetime ''01/15/2024 13:45:00''
       = Inr \<lparr>year = 2024, month = 1, day = 15, hour = 13, minute = 45, second = 0,
              microsecond = 0, tzinfo = None\<rparr>"
    by (rule parse_full_example)
  show "parse_to_datetime ''01/15/2024''
       = Inr \<lparr>year = 2024, month = 1, day = 15, hour = 0, minute = 0, second = 0,
              microsecond = 0, tzinfo = None\<rparr>"
    by (rule parse_date_example)
  show "parse_to_datetime ''not-a-date''
       = Inl (Exn ValueError [AStr [Lit ''Invalid date format: '', FStr ''not-a-date'']])"
    by (rule parse_bad_example)
qed (simp_all add: parse_to_datetime_cases)

theorem date_normalizer_order_witness:
  "strptime ''01/15/2024'' format_full = Inl (Exn ValueError [])
   \<and> strptime ''01/15/2024'' format_date
       = Inr \<lparr>year = 2024, month = 1, day = 15, hour = 0, minute = 0, second = 0,
              microsecond = 0, tzinfo = None\<rparr>
   \<and> parse_to_datetime ''01/15/2024''
       = Inr \<lparr>year = 2024, month = 1, day = 15, hour = 0, minute = 0, second = 0,
              microsecond = 0, tzinfo = None\<rparr>"
  using date_normalizer_order [of "''01/15/2024''"] strptime_date_only_example
  by simp

subsection \<open>The watermark round trip\<close>

lemma digit_char_Suc_0: "digit_char (Suc 0) = CHR ''1''"
  using digit_char_literals(2) by simp

lemma decimal_examples: "decimal 999 = ''999''" "decimal 2024 = ''2024''"
  by (simp_all add: decimal.simps [of 999] decimal.simps [of 99] decimal.simps [of 9]
        decimal.simps [of 2024] decimal.simps [of 202] decimal.simps [of 20]
        decimal.simps [of 2] digit_char_literals)

text \<open>
  C9, as stated, fails. A watermark of a year below 1000 is written with fewer than four
  digits for the year, which the date normalizer refuses; and the text carries no time
  zone, so an aware watermark comes back naive, a value Python compares as different.
\<close>

theorem watermark_round_trip_fails:
  "valid_datetime \<lparr>year = 999, month = 1, day = 2, hour = 3, minute = 4, second = 5,
                   microsecond = 0, tzinfo = None\<rparr>
   \<and> format_date_for_intacct \<lparr>year = 999, month = 1, day = 2, hour = 3, minute = 4,
                   second = 5, microsecond = 0, tzinfo = None\<rparr> = ''01/02/999 03:04:05''
   \<and> strptime ''01/02/999 03:04:05'' format_full = Inl (Exn ValueError [])
   \<and> parse_to_datetime ''01/02/999 03:04:05''
       = Inl (Exn ValueError [AStr [Lit ''Invalid date format: '', FStr ''01/02/999 03:04:05'']])
   \<and> valid_datetime \<lparr>year = 2024, month = 1, day = 15, hour = 13, minute = 45, second = 0,
                   microsecond = 0, tzinfo = Some 0\<rparr>
   \<and> strptime (format_date_for_intacct \<lparr>year = 2024, month = 1, day = 15, hour = 13,
                   minute = 45, second = 0, microsecond = 0, tzinfo = Some 0\<rparr>) format_full
       \<noteq> Inr \<lparr>year = 2024, month = 1, day = 15, hour = 13, minute = 45, second = 0,
               microsecond = 0, tzinfo = Some 0\<rparr>"
proof -
  have 1: "strptime ''01/02/999 03:04:05'' format_full = Inl (Exn ValueError [])"
    by (simp add: eval_defs)
  have 2: "strptime ''01/02/999 03:04:05'' format_date = Inl (Exn ValueError [])"
    by (simp add: eval_defs)
  have 3: "format_date_for_intacct \<lparr>year = 2024, month = 1, day = 15, hour = 13,
                   minute = 45, second = 0, microsecond = 0, tzinfo = Some 0\<rparr>
             = ''01/15/2024 13:45:00''"
    by (simp add: format_date_for_intacct_def pad2_def decimal_examples digit_char_literals
          digit_char_Suc_0)
  have 4: "format_date_for_intacct \<lparr>year = 999, month = 1, day = 2, hour = 3, minute = 4,
                   second = 5, microsecond = 0, tzinfo = None\<rparr> = ''01/02/999 03:04:05''"
    by (simp add: format_date_for_intacct_def pad2_def decimal_examples digit_char_literals
          digit_char_Suc_0)
  have 5: "parse_to_datetime ''01/02/999 03:04:05''
       = Inl (Exn ValueError [AStr [Lit ''Invalid date format: '', FStr ''01/02/999 03:04:05'']])"
    by (simp add: parse_to_datetime_cases 1 2)
  show ?thesis
    unfolding 3 4
    by (intro conjI)
       (simp_all add: 1 5 strptime_full_example valid_datetime_def days_in_month_def is_leap_def)
qed

text \<open>
  C9, amended. For every watermark whose year is at least 1000, the text that
  \<^verbatim>\<open>_format_date_for_intacct\<close> writes is parsed by the first format of the date
  normalizer, and by the date normalizer itself, to the naive timestamp that has the
  calendar fields of the watermark with the microseconds set to zero.
\<close>

theorem watermark_round_trip:
  assumes "valid_datetime dt" and "1000 \<le> year dt"
  shows "strptime (format_date_for_intacct dt) format_full
           = Inr (dt\<lparr>microsecond := 0, tzinfo := None\<rparr>)
       \<and> parse_to_datetime (format_date_for_intacct dt)
           = Inr (dt\<lparr>microsecond := 0, tzinfo := None\<rparr>)"
  using strptime_formatted [OF assms] by (simp add: parse_to_datetime_def)

theorem watermark_round_trip_witness:
  "valid_datetime \<lparr>year = 2024, month = 2, day = 29, hour = 23, minute = 59, second = 7,
                   microsecond = 123456, tzinfo = Some 0\<rparr>
   \<and> 1000 \<le> year \<lparr>year = 2024, month = 2, day = 29, hour = 23, minute = 59, second = 7,
                   microsecond = 123456, tzinfo = Some 0\<rparr>
   \<and> format_date_for_intacct \<lparr>year = 2024, month = 2, day = 29, hour = 23, minute = 59,
                   second = 7, microsecond = 123456, tzinfo = Some 0\<rparr> = ''02/29/2024 23:59:07''
   \<and> parse_to_datetime ''02/29/2024 23:59:07''
       = Inr \<lparr>year = 2024, month = 2, day = 29, hour = 23, minute = 59, second = 7,
              microsecond = 0, tzinfo = None\<rparr>"
proof -
  let ?dt = "\<lparr>year = 2024, month = 2, day = 29, hour = 23, minute = 59, second = 7,
                   microsecond = 123456, tzinfo = Some 0\<rparr>"
  have v: "valid_datetime ?dt"
    by (simp add: valid_datetime_def days_in_month_def is_leap_def)
  have y: "1000 \<le> year ?dt" by simp
  have f: "format_date_for_intacct ?dt = ''02/29/2024 23:59:07''"
    by (simp add: format_date_for_intacct_def pad2_def decimal_examples digit_char_literals
          digit_char_Suc_0)
  from watermark_round_trip [OF v y] v f show ?thesis by simp
qed

section \<open>Properties of the record normalizer\<close>

lemma datetime_fields_declared:
  "datetime_fields props = Inr fs \<Longrightarrow>
   set fs = {i. \<exists>t. (i, t) \<in> set props \<and> py_get t ''format'' JNull = Inr (JStr ''date-time'')}
   \<and> set fs \<subseteq> fst ` set props"
proof (induction props arbitrary: fs)
  case Nil
  then show ?case by simp
next
  case (Cons p props)
  obtain i t where p: "p = (i, t)" by (cases p)
  from Cons.prems p obtain f fs' where f: "py_get t ''format'' JNull = Inr f"
    and fs': "datetime_fields props = Inr fs'"
    and fs: "fs = (if f = JStr ''date-time'' then i # fs' else fs')"
    by (auto split: sum.splits)
  from Cons.IH [OF fs'] f fs p show ?case by (auto 0 3)
qed

lemma datetime_fields_distinct:
  "datetime_fields props = Inr fs \<Longrightarrow> distinct (map fst props) \<Longrightarrow> distinct fs"
proof (induction props arbitrary: fs)
  case Nil
  then show ?case by simp
next
  case (Cons p props)
  obtain i t where p: "p = (i, t)" by (cases p)
  from Cons.prems(1) p obtain f fs' where fs': "datetime_fields props = Inr fs'"
    and fs: "fs = (if f = JStr ''date-time'' then i # fs' else fs')"
    by (auto split: sum.splits)
  from Cons.prems(2) have d: "distinct (map fst props)" and n: "i \<notin> fst ` set props"
    using p by auto
  from datetime_fields_declared [OF fs'] n have "i \<notin> set fs'" by blast
  with Cons.IH [OF fs' d] fs show ?case by simp
qed

lemma post_process_frame:
  "f \<notin> set dfields \<Longrightarrow> fst (post_process dfields row) f = row f"
  by (induction dfields arbitrary: row) (auto split: option.splits sum.splits)

lemma post_process_success:
  assumes "distinct dfields" and "snd (post_process dfields row) = None" and "f \<in> set dfields"
  shows "(row f = Some (J JNull) \<and> fst (post_process dfields row) f = Some (J JNull))
       \<or> (\<exists>s dt. row f = Some (J (JStr s)) \<and> parse_to_datetime s = Inr dt
                 \<and> fst (post_process dfields row) f = Some (DT dt))"
  using assms
proof (induction dfields arbitrary: row)
  case Nil
  then show ?case by simp
next
  case (Cons field dfields)
  from Cons.prems(1) have d: "distinct dfields" and nf: "field \<notin> set dfields" by auto
  from Cons.prems(2) obtain v where v: "row field = Some v"
    by (auto split: option.splits)
  show ?case
  proof (cases "v = J JNull")
    case True
    with v have pp: "post_process (field # dfields) row = post_process dfields row" by simp
    show ?thesis
    proof (cases "f = field")
      case True
      with nf v \<open>v = J JNull\<close> show ?thesis
        unfolding pp by (simp add: post_process_frame)
    next
      case False
      with Cons.prems(3) have m: "f \<in> set dfields" by simp
      have s': "snd (post_process dfields row) = None"
        using Cons.prems(2) unfolding pp .
      from Cons.IH [OF d s' m] show ?thesis unfolding pp .
    qed
  next
    case False
    with v Cons.prems(2) obtain dt where dt: "parse_value v = Inr dt"
      by (auto split: sum.splits)
    then obtain s where s: "v = J (JStr s)" "parse_to_datetime s = Inr dt"
      by (cases v rule: parse_value.cases) auto
    from v False dt have pp: "post_process (field # dfields) row
        = post_process dfields (row(field \<mapsto> DT dt))" by simp
    show ?thesis
    proof (cases "f = field")
      case True
      with nf v s show ?thesis
        unfolding pp by (simp add: post_process_frame)
    next
      case nf': False
      with Cons.prems(3) have m: "f \<in> set dfields" by simp
      have s': "snd (post_process dfields (row(field \<mapsto> DT dt))) = None"
        using Cons.prems(2) unfolding pp .
      have eq: "(row(field \<mapsto> DT dt)) f = row f" using nf' by simp
      from Cons.IH [OF d s' m, unfolded eq] show ?thesis unfolding pp .
    qed
  qed
qed

lemma post_process_failure:
  assumes "distinct dfields" and "snd (post_process dfields row) = Some e"
  shows "\<exists>f \<in> set dfields.
           (row f = None \<and> e = Exn KeyError [AObj (JStr f)])
         \<or> (\<exists>v. row f = Some v \<and> v \<noteq> J JNull \<and> parse_value v = Inl e)"
  using assms
proof (induction dfields arbitrary: row)
  case Nil
  then show ?case by simp
next
  case (Cons field dfields)
  from Cons.prems(1) have d: "distinct dfields" and nf: "field \<notin> set dfields" by auto
  show ?case
  proof (cases "row field")
    case None
    with Cons.prems(2) show ?thesis by auto
  next
    case (Some v)
    show ?thesis
    proof (cases "v = J JNull")
      case True
      with Some Cons.prems(2) have "snd (post_process dfields row) = Some e" by simp
      from Cons.IH [OF d this] show ?thesis by auto
    next
      case False
      show ?thesis
      proof (cases "parse_value v")
        case (Inl e')
        with Some False Cons.prems(2) show ?thesis by auto
      next
        case (Inr dt)
        with Some False Cons.prems(2)
        have "snd (post_process dfields (row(field \<mapsto> DT dt))) = Some e" by simp
        from Cons.IH [OF d this] obtain f where f: "f \<in> set dfields"
          "((row(field \<mapsto> DT dt)) f = None \<and> e = Exn KeyError [AObj (JStr f)])
           \<or> (\<exists>v. (row(field \<mapsto> DT dt)) f = Some v \<and> v \<noteq> J JNull \<and> parse_value v = Inl e)"
          by blast
        from f(1) nf have "f \<noteq> field" by auto
        with f show ?thesis by auto
      qed
    qed
  qed
qed

text \<open>
  C7. Let the date fields be those the schema declares with the format \<^verbatim>\<open>date-time\<close>
  (the names of a schema are distinct). When \<^verbatim>\<open>post_process\<close> returns the record, every
  declared date field is in it and either was null and still is, or held a text that the
  date normalizer parses and now holds that timestamp; every other field is as it was. When
  it does not return the record it raises: \<open>KeyError\<close> for a declared date field the record
  lacks, the \<open>ValueError\<close> of the date normalizer for a text it does not parse, \<open>TypeError\<close>
  for a value that is neither null nor a text. So a record is returned with all its
  present, non-null date fields transformed, or not at all.
\<close>

theorem post_process_all_or_fail:
  assumes "distinct (map fst props)" and "datetime_fields props = Inr dfields"
  shows "(\<forall>f. f \<in> set dfields \<longleftrightarrow>
            (\<exists>t. (f, t) \<in> set props \<and> py_get t ''format'' JNull = Inr (JStr ''date-time'')))
       \<and> (snd (post_process dfields row) = None \<longrightarrow>
            (\<forall>f. if f \<in> set dfields
                 then (row f = Some (J JNull) \<and> fst (post_process dfields row) f = Some (J JNull))
                    \<or> (\<exists>s dt. row f = Some (J (JStr s)) \<and> parse_to_datetime s = Inr dt
                              \<and> fst (post_process dfields row) f = Some (DT dt))
                 else fst (post_process dfields row) f = row f))
       \<and> (\<forall>e. snd (post_process dfields row) = Some e \<longrightarrow>
            (\<exists>f. f \<in> set dfields \<and>
               ((row f = None \<and> e = Exn KeyError [AObj (JStr f)])
              \<or> (\<exists>s. row f = Some (J (JStr s)) \<and> parse_to_datetime s = Inl e
                       \<and> e = Exn ValueError [AStr [Lit ''Invalid date format: '', FStr s]])
              \<or> (\<exists>v. row f = Some v \<and> v \<noteq> J JNull \<and> (\<forall>s. v \<noteq> J (JStr s))
                       \<and> e = Exn TypeError []))))"
proof (intro conjI allI impI)
  fix f
  from datetime_fields_declared [OF assms(2)]
  show "f \<in> set dfields \<longleftrightarrow>
          (\<exists>t. (f, t) \<in> set props \<and> py_get t ''format'' JNull = Inr (JStr ''date-time''))"
    by auto
next
  fix f
  assume s: "snd (post_process dfields row) = None"
  note d = datetime_fields_distinct [OF assms(2,1)]
  show "if f \<in> set dfields
        then (row f = Some (J JNull) \<and> fst (post_process dfields row) f = Some (J JNull))
           \<or> (\<exists>s dt. row f = Some (J (JStr s)) \<and> parse_to_datetime s = Inr dt
                     \<and> fst (post_process dfields row) f = Some (DT dt))
        else fst (post_process dfields row) f = row f"
    using post_process_success [OF d s, of f] post_process_frame [of f dfields row]
    by (cases "f \<in> set dfields") simp_all
next
  fix e
  assume s: "snd (post_process dfields row) = Some e"
  note d = datetime_fields_distinct [OF assms(2,1)]
  from post_process_failure [OF d s] obtain f where f: "f \<in> set dfields"
    and c: "(row f = None \<and> e = Exn KeyError [AObj (JStr f)])
         \<or> (\<exists>v. row f = Some v \<and> v \<noteq> J JNull \<and> parse_value v = Inl e)"
    by blast
  from c have "(row f = None \<and> e = Exn KeyError [AObj (JStr f)])
      \<or> (\<exists>s. row f = Some (J (JStr s)) \<and> parse_to_datetime s = Inl e
               \<and> e = Exn ValueError [AStr [Lit ''Invalid date format: '', FStr s]])
      \<or> (\<exists>v. row f = Some v \<and> v \<noteq> J JNull \<and> (\<forall>s. v \<noteq> J (JStr s)) \<and> e = Exn TypeError [])"
  proof
    assume "row f = None \<and> e = Exn KeyError [AObj (JStr f)]"
    then show ?thesis by simp
  next
    assume "\<exists>v. row f = Some v \<and> v \<noteq> J JNull \<and> parse_value v = Inl e"
    then obtain v where v: "row f = Some v" "v \<noteq> J JNull" "parse_value v = Inl e" by blast
    show ?thesis
    proof (cases "\<exists>s. v = J (JStr s)")
      case True
      then obtain s where s: "v = J (JStr s)" by blast
      with v(3) have p: "parse_to_datetime s = Inl e" by simp
      then have "e = Exn ValueError [AStr [Lit ''Invalid date format: '', FStr s]]"
        by (auto simp: parse_to_datetime_cases split: sum.splits)
      with v(1) s p show ?thesis by blast
    next
      case False
      with v(3) have "e = Exn TypeError []"
        by (cases v rule: parse_value.cases) auto
      with v False show ?thesis by blast
    qed
  qed
  with f show "\<exists>f. f \<in> set dfields \<and>
               ((row f = None \<and> e = Exn KeyError [AObj (JStr f)])
              \<or> (\<exists>s. row f = Some (J (JStr s)) \<and> parse_to_datetime s = Inl e
                       \<and> e = Exn ValueError [AStr [Lit ''Invalid date format: '', FStr s]])
              \<or> (\<exists>v. row f = Some v \<and> v \<noteq> J JNull \<and> (\<forall>s. v \<noteq> J (JStr s))
                       \<and> e = Exn TypeError []))"
    by blast
qed

theorem post_process_all_or_fail_witness:
  "distinct (map fst (schema_properties customers))
   \<and> datetime_fields (schema_properties customers) = Inr [''WHENMODIFIED'']
   \<and> snd (post_process [''WHENMODIFIED'']
            [''CUSTOMERID'' \<mapsto> J (JStr ''C1''), ''WHENMODIFIED'' \<mapsto> J (JStr ''01/15/2024 13:45:00'')])
       = None
   \<and> fst (post_process [''WHENMODIFIED'']
            [''CUSTOMERID'' \<mapsto> J (JStr ''C1''), ''WHENMODIFIED'' \<mapsto> J (JStr ''01/15/2024 13:45:00'')])
         ''WHENMODIFIED''
       = Some (DT \<lparr>year = 2024, month = 1, day = 15, hour = 13, minute = 45, second = 0,
                    microsecond = 0, tzinfo = None\<rparr>)
   \<and> fst (post_process [''WHENMODIFIED'']
            [''CUSTOMERID'' \<mapsto> J (JStr ''C1''), ''WHENMODIFIED'' \<mapsto> J (JStr ''01/15/2024 13:45:00'')])
         ''CUSTOMERID''
       = Some (J (JStr ''C1''))"
proof -
  let ?row = "[''CUSTOMERID'' \<mapsto> J (JStr ''C1''),
               ''WHENMODIFIED'' \<mapsto> J (JStr ''01/15/2024 13:45:00'')]"
  have d: "distinct (map fst (schema_properties customers))"
    by (simp add: customers_def)
  have f: "datetime_fields (schema_properties customers) = Inr [''WHENMODIFIED'']"
    by (simp add: customers_def)
  have s: "snd (post_process [''WHENMODIFIED''] ?row) = None"
    by (simp add: parse_full_example)
  note t = post_process_all_or_fail [OF d f, of ?row]
  from t s have 1: "fst (post_process [''WHENMODIFIED''] ?row) ''CUSTOMERID'' = ?row ''CUSTOMERID''"
    by (auto dest!: spec [where x = "''CUSTOMERID''"])
  from t s have "\<exists>s dt. ?row ''WHENMODIFIED'' = Some (J (JStr s)) \<and> parse_to_datetime s = Inr dt
       \<and> fst (post_process [''WHENMODIFIED''] ?row) ''WHENMODIFIED'' = Some (DT dt)"
    by (auto dest!: spec [where x = "''WHENMODIFIED''"])
  then have 2: "fst (post_process [''WHENMODIFIED''] ?row) ''WHENMODIFIED''
       = Some (DT \<lparr>year = 2024, month = 1, day = 15, hour = 13, minute = 45, second = 0,
                    microsecond = 0, tzinfo = None\<rparr>)"
    by (auto simp: parse_full_example)
  from d f s 1 2 show ?thesis by simp
qed

section \<open>Properties of the request builder\<close>

text \<open>
  C8. For the stream named \<^verbatim>\<open>audit_history\<close> the builder raises
  \<^verbatim>\<open>Exception("TODO hanlde audit streams")\<close> whatever its other inputs are (a missing
  watermark, a configuration without credentials, any serializer): nothing is built or
  sent before. For every other stream name an exception of the builder is never of that
  class.
\<close>

theorem audit_history_unsupported:
  "(name s = ''audit_history'' \<longrightarrow>
      prepare_request_payload unparse REP_KEYS GET_BY_DATE_FIELD s starting_timestamp now uuid4
        = Inl (Exn Exception [AStr [Lit ''TODO hanlde audit streams'']]))
   \<and> (name s \<noteq> ''audit_history'' \<longrightarrow>
        (\<forall>e. prepare_request_payload unparse REP_KEYS GET_BY_DATE_FIELD s starting_timestamp now uuid4
               = Inl e \<longrightarrow> exn_class e \<noteq> Exception))"
  by (auto simp: prepare_request_payload_def Let_def split: option.splits)

theorem audit_history_unsupported_witness:
  "prepare_request_payload (\<lambda>b. b) Map.empty ''WHENMODIFIED''
     (customers\<lparr>name := ''audit_history'', config := Map.empty\<rparr>) None
     \<lparr>year = 2024, month = 1, day = 15, hour = 13, minute = 45, second = 0, microsecond = 0, tzinfo = Some 0\<rparr>
     ''u-1''
   = Inl (Exn Exception [AStr [Lit ''TODO hanlde audit streams'']])
   \<and> prepare_request_payload (\<lambda>b. b) Map.empty ''WHENMODIFIED'' customers None
     \<lparr>year = 2024, month = 1, day = 15, hour = 13, minute = 45, second = 0, microsecond = 0, tzinfo = Some 0\<rparr>
     ''u-1''
   = Inl (Exn AttributeError [])"
proof -
  let ?now = "\<lparr>year = 2024, month = 1, day = 15, hour = 13, minute = 45, second = 0,
               microsecond = 0, tzinfo = Some 0\<rparr>"
  have n: "name (customers\<lparr>name := ''audit_history'', config := Map.empty\<rparr>) = ''audit_history''"
    by simp
  from audit_history_unsupported
    [of "customers\<lparr>name := ''audit_history'', config := Map.empty\<rparr>" "\<lambda>b. b" Map.empty
        "''WHENMODIFIED''" None ?now "''u-1''"] n
  have 1: "prepare_request_payload (\<lambda>b. b) Map.empty ''WHENMODIFIED''
     (customers\<lparr>name := ''audit_history'', config := Map.empty\<rparr>) None ?now ''u-1''
   = Inl (Exn Exception [AStr [Lit ''TODO hanlde audit streams'']])"
    by simp
  have 2: "prepare_request_payload (\<lambda>b. b) Map.empty ''WHENMODIFIED'' customers None ?now ''u-1''
   = Inl (Exn AttributeError [])"
    by (simp add: prepare_request_payload_def customers_def)
  from 1 2 show ?thesis by simp
qed

text \<open>
  C10, as stated, fails: the outer \<^verbatim>\<open>controlid\<close> is the reading of the clock and the
  inner one a fresh random identifier, so two invocations with the same stream, watermark,
  session and credentials build different requests.
\<close>

theorem builder_not_deterministic:
  "prepare_request_payload (\<lambda>b. b) Map.empty ''WHENMODIFIED'' customers
     (Some \<lparr>year = 2024, month = 1, day = 1, hour = 0, minute = 0, second = 0, microsecond = 0, tzinfo = Some 0\<rparr>)
     \<lparr>year = 2024, month = 1, day = 15, hour = 13, minute = 45, second = 0, microsecond = 0, tzinfo = Some 0\<rparr>
     ''3f2b8c1e-0000-4000-8000-000000000001''
   \<noteq> prepare_request_payload (\<lambda>b. b) Map.empty ''WHENMODIFIED'' customers
     (Some \<lparr>year = 2024, month = 1, day = 1, hour = 0, minute = 0, second = 0, microsecond = 0, tzinfo = Some 0\<rparr>)
     \<lparr>year = 2024, month = 1, day = 15, hour = 13, minute = 45, second = 1, microsecond = 0, tzinfo = Some 0\<rparr>
     ''3f2b8c1e-0000-4000-8000-000000000002''"
  by (simp add: prepare_request_payload_def customers_def Let_def)

text \<open>
  C10, amended. The builder calls no transport; besides its arguments it reads the clock
  and draws a random identifier. With the stream, the watermark, the session and the
  credentials fixed, an invocation that raises does so whatever the two readings are; two
  invocations that return hand the serializer the same dictionary exactly when the clock
  reading and the identifier are the same, and the body is the serializer's value on that
  dictionary.
\<close>

theorem builder_depends_on_clock_and_uuid:
  "(\<forall>e. prepare_request_payload unparse REP_KEYS GET_BY_DATE_FIELD s w now1 u1 = Inl e \<longrightarrow>
        prepare_request_payload unparse REP_KEYS GET_BY_DATE_FIELD s w now2 u2 = Inl e)
   \<and> (\<forall>b1 b2. prepare_request_payload (\<lambda>b. b) REP_KEYS GET_BY_DATE_FIELD s w now1 u1 = Inr b1
          \<and> prepare_request_payload (\<lambda>b. b) REP_KEYS GET_BY_DATE_FIELD s w now2 u2 = Inr b2 \<longrightarrow>
        (b1 = b2 \<longleftrightarrow> now1 = now2 \<and> u1 = u2)
        \<and> prepare_request_payload unparse REP_KEYS GET_BY_DATE_FIELD s w now1 u1 = Inr (unparse b1)
        \<and> prepare_request_payload unparse REP_KEYS GET_BY_DATE_FIELD s w now2 u2 = Inr (unparse b2))"
  by (auto simp: prepare_request_payload_def Let_def split: option.splits if_splits)

theorem builder_depends_on_clock_and_uuid_witness:
  "\<exists>b1 b2.
     prepare_request_payload (\<lambda>b. b) Map.empty ''WHENMODIFIED'' customers
       (Some \<lparr>year = 2024, month = 1, day = 1, hour = 0, minute = 0, second = 0, microsecond = 0, tzinfo = Some 0\<rparr>)
       \<lparr>year = 2024, month = 1, day = 15, hour = 13, minute = 45, second = 0, microsecond = 0, tzinfo = Some 0\<rparr>
       ''3f2b8c1e-0000-4000-8000-000000000001'' = Inr b1
   \<and> prepare_request_payload (\<lambda>b. b) Map.empty ''WHENMODIFIED'' customers
       (Some \<lparr>year = 2024, month = 1, day = 1, hour = 0, minute = 0, second = 0, microsecond = 0, tzinfo = Some 0\<rparr>)
       \<lparr>year = 2024, month = 1, day = 15, hour = 13, minute = 45, second = 0, microsecond = 0, tzinfo = Some 0\<rparr>
       ''3f2b8c1e-0000-4000-8000-000000000002'' = Inr b2
   \<and> b1 \<noteq> b2"
proof -
  let ?w = "Some \<lparr>year = 2024, month = 1, day = 1, hour = 0, minute = 0, second = 0,
                  microsecond = 0, tzinfo = Some 0\<rparr>"
  let ?now = "\<lparr>year = 2024, month = 1, day = 15, hour = 13, minute = 45, second = 0,
               microsecond = 0, tzinfo = Some 0\<rparr>"
  let ?u1 = "''3f2b8c1e-0000-4000-8000-000000000001''"
  let ?u2 = "''3f2b8c1e-0000-4000-8000-000000000002''"
  obtain b1 where b1: "prepare_request_payload (\<lambda>b. b) Map.empty ''WHENMODIFIED'' customers
       ?w ?now ?u1 = Inr b1"
    by (simp add: prepare_request_payload_def customers_def Let_def)
  obtain b2 where b2: "prepare_request_payload (\<lambda>b. b) Map.empty ''WHENMODIFIED'' customers
       ?w ?now ?u2 = Inr b2"
    by (simp add: prepare_request_payload_def customers_def Let_def)
  from builder_depends_on_clock_and_uuid
         [of "\<lambda>b. b" Map.empty "''WHENMODIFIED''" customers ?w ?now ?u1 ?now ?u2] b1 b2
  have "b1 = b2 \<longleftrightarrow> ?now = ?now \<and> ?u1 = ?u2" by blast
  then have "b1 \<noteq> b2" by simp
  with b1 b2 show ?thesis by blast
qed

end
